theory Spec2Isabelle
  imports Complex_Main "HOL-Library.Word" "HOL-Library.Log_Nat"
begin

chapter \<open>The adaptive questioning controller of App.tsx\<close>

text \<open>
  A shallow embedding of the logic of \<^verbatim>\<open>src/App.tsx\<close>: the input validator
  (\<^verbatim>\<open>validateInput\<close>), the daily rate limiter (\<^verbatim>\<open>checkRateLimit\<close>), the oracle
  client (\<^verbatim>\<open>getApiKey\<close>, \<^verbatim>\<open>generateNextQuestion\<close>), the fallback questions
  (\<^verbatim>\<open>getFallbackQuestion\<close>), the event handlers of the component and the analytics
  (\<^verbatim>\<open>calculateAnalytics\<close>). The React state and the two browser stores are one record
  that every handler takes and returns; what the outside world supplies to a handler (the
  calendar day, the clock, the reply of the generation service) is an argument of it.
\<close>

section \<open>Strings\<close>

text \<open>
  A JavaScript string is a sequence of UTF-16 code units, and \<^verbatim>\<open>length\<close>,
  \<^verbatim>\<open>substring\<close>, \<^verbatim>\<open>trim\<close> and the regular expressions of the source all work on
  code units. \<open>js\<close> embeds an ASCII literal.
\<close>

type_synonym jsstring = "16 word list"

definition js :: "string \<Rightarrow> jsstring" where
  "js s = map of_char s"

text \<open>
  The characters that \<^verbatim>\<open>String.prototype.trim\<close> strips and that \<^verbatim>\<open>\s\<close> matches:
  ECMAScript's WhiteSpace and LineTerminator.
\<close>

definition isWhiteSpace :: "16 word \<Rightarrow> bool" where
  "isWhiteSpace c =
     (c \<in> {0x9, 0xA, 0xB, 0xC, 0xD, 0x20, 0xA0, 0x1680, 0x2028, 0x2029, 0x202F, 0x205F,
            0x3000, 0xFEFF}
      \<or> (0x2000 \<le> c \<and> c \<le> 0x200A))"

definition trim :: "jsstring \<Rightarrow> jsstring" where
  "trim s = rev (dropWhile isWhiteSpace (rev (dropWhile isWhiteSpace s)))"

text \<open>
  \<^verbatim>\<open>s.split(/\s+/)\<close>: the scan of \<^verbatim>\<open>String.prototype.split\<close>. \<open>piece\<close> is the
  text since the last separator; a whitespace character starts a match of \<^verbatim>\<open>\s+\<close>, which
  is greedy and takes the whole run; the piece before it is emitted, also when it is empty,
  and the text left at the end is the last piece, so \<^verbatim>\<open>"".split(/\s+/)\<close> is
  \<^verbatim>\<open>[""]\<close>.
\<close>

function split_from :: "jsstring \<Rightarrow> jsstring \<Rightarrow> jsstring list" where
  "split_from piece [] = [piece]"
| "split_from piece (c # cs) =
     (if isWhiteSpace c then piece # split_from [] (dropWhile isWhiteSpace cs)
      else split_from (piece @ [c]) cs)"
  by pat_completeness auto
termination
  by (relation "measure (\<lambda>(piece, rest). length rest)")
     (auto simp: le_imp_less_Suc length_dropWhile_le)

definition split_whitespace :: "jsstring \<Rightarrow> jsstring list" where
  "split_whitespace s = split_from [] s"

text \<open>\<^verbatim>\<open>s.includes(sub)\<close>: \<open>sub\<close> occurs in \<open>s\<close> at some position.\<close>

definition js_includes :: "jsstring \<Rightarrow> jsstring \<Rightarrow> bool" where
  "js_includes s sub = list_ex (\<lambda>i. take (length sub) (drop i s) = sub) [0..<Suc (length s)]"

section \<open>Input validator\<close>

text \<open>The class \<^verbatim>\<open>[a-zA-Z]\<close> and the class \<^verbatim>\<open>[aeiouAEIOU]\<close>.\<close>

definition isAsciiLetter :: "16 word \<Rightarrow> bool" where
  "isAsciiLetter c = ((0x61 \<le> c \<and> c \<le> 0x7A) \<or> (0x41 \<le> c \<and> c \<le> 0x5A))"

definition isVowel :: "16 word \<Rightarrow> bool" where
  "isVowel c = (c \<in> {0x61, 0x65, 0x69, 0x6F, 0x75, 0x41, 0x45, 0x49, 0x4F, 0x55})"

text \<open>The predicate of \<^verbatim>\<open>words.filter(word => ...)\<close>.\<close>

definition meaningfulWord :: "jsstring \<Rightarrow> bool" where
  "meaningfulWord word =
     (let cleanWord = filter isAsciiLetter word;
          hasVowels = list_ex isVowel cleanWord;
          isReasonableLength = (2 \<le> length cleanWord)
      in hasVowels \<and> isReasonableLength)"

record validation =
  valid :: bool
  error :: jsstring

definition tooShortMessage :: jsstring where
  "tooShortMessage =
     js ''Please provide a more detailed project description (at least 10 characters)''"

definition realWordsMessage :: jsstring where
  "realWordsMessage = js ''Please describe your project with real words.''"

definition validateInput :: "jsstring \<Rightarrow> validation" where
  "validateInput text =
     (if text = [] \<or> length (trim text) < 10
      then \<lparr>valid = False, error = tooShortMessage\<rparr>
      else
        let words = split_whitespace (trim text);
            meaningfulWords = filter meaningfulWord words
        in if length meaningfulWords < 3
           then \<lparr>valid = False, error = realWordsMessage\<rparr>
           else \<lparr>valid = True, error = []\<rparr>)"

text \<open>
  The specification's reading of "tokenize on whitespace", for comparison with the
  source's \<^verbatim>\<open>trim\<close> and \<^verbatim>\<open>split\<close>: the tokens of a text are its maximal runs of
  characters that are not whitespace.
\<close>

function tokens :: "jsstring \<Rightarrow> jsstring list" where
  "tokens s =
     (let r = dropWhile isWhiteSpace s
      in if r = [] then []
         else takeWhile (\<lambda>c. \<not> isWhiteSpace c) r
                # tokens (dropWhile (\<lambda>c. \<not> isWhiteSpace c) r))"
  by pat_completeness auto
termination
proof (relation "measure length", goal_cases)
  case 1
  show ?case by simp
next
  case (2 s r)
  then obtain c cs where r: "r = c # cs" and c: "\<not> isWhiteSpace c"
    by (metis hd_dropWhile list.exhaust_sel)
  have "length (dropWhile (\<lambda>c. \<not> isWhiteSpace c) r) \<le> length cs"
    using r c by (simp add: length_dropWhile_le)
  also have "\<dots> < length r" using r by simp
  also have "\<dots> \<le> length s" using 2 by (simp add: length_dropWhile_le)
  finally show ?case by simp
qed

declare tokens.simps [simp del]

section \<open>Numbers\<close>

text \<open>
  The numbers of the source are IEEE 754 binary64 values, and \<^verbatim>\<open>/\<close>, \<^verbatim>\<open>*\<close> and
  \<^verbatim>\<open>+\<close> round their exact result to the nearest such value, ties to the even
  significand. \<open>fl64\<close> is that rounding on the rationals: a value \<open>q\<close> with
  \<open>2\<^sup>e \<le> |q| < 2\<^sup>e\<^sup>+\<^sup>1\<close> is rounded to a multiple of \<open>2\<^sup>e\<^sup>-\<^sup>5\<^sup>2\<close>. The exponent range of
  binary64 is left out of \<open>fl64\<close>. The quotients and products of the analytics lie
  between \<open>2\<^sup>-\<^sup>3\<^sup>2\<close> and \<open>2\<^sup>3\<^sup>9\<close> for arrays and objects that JavaScript can hold. The
  sum of a binary64 value and 1 rounds to no more than the largest binary64 value, and it
  is 0 when its magnitude is below \<open>2\<^sup>-\<^sup>5\<^sup>3\<close>.
\<close>

definition round_half_even :: "rat \<Rightarrow> int" where
  "round_half_even x =
     (let f = \<lfloor>x\<rfloor>; r = x - of_int f
      in if r < 1 / 2 then f else if 1 / 2 < r then f + 1 else if even f then f else f + 1)"

definition ilog2 :: "rat \<Rightarrow> int" where
  "ilog2 q = (if 1 \<le> q then bitlen \<lfloor>q\<rfloor> - 1 else - bitlen (\<lceil>1 / q\<rceil> - 1))"

definition fl64 :: "rat \<Rightarrow> rat" where
  "fl64 q =
     (if q = 0 then 0
      else let e = ilog2 \<bar>q\<bar>; ulp = 2 powi (e - 52)
           in of_int (round_half_even (q / ulp)) * ulp)"

text \<open>
  A value of the type Number: \<open>Finite q\<close> for a binary64 value \<open>q\<close> (the two zeros are
  one value here: no operation below tells them apart), the two infinities, which
  \<^verbatim>\<open>JSON.parse\<close> gives for a literal beyond the binary64 range, and \<^verbatim>\<open>NaN\<close>.
\<close>

datatype number = NaN | Infinity | NegInfinity | Finite rat

text \<open>
  \<^verbatim>\<open>x >= y\<close> and \<^verbatim>\<open>x + 1\<close> on numbers, for a finite \<open>y\<close>: a comparison with
  \<^verbatim>\<open>NaN\<close> is false, and \<^verbatim>\<open>NaN\<close> and the infinities absorb the addition.
\<close>

definition greaterEqual :: "number \<Rightarrow> rat \<Rightarrow> bool" where
  "greaterEqual x y =
     (case x of Finite q \<Rightarrow> y \<le> q | Infinity \<Rightarrow> True | NegInfinity \<Rightarrow> False | NaN \<Rightarrow> False)"

definition plus_1 :: "number \<Rightarrow> number" where
  "plus_1 x = (case x of Finite q \<Rightarrow> Finite (fl64 (q + 1)) | _ \<Rightarrow> x)"

section \<open>Values read from JSON\<close>

text \<open>
  What \<^verbatim>\<open>JSON.parse\<close> returns: \<^verbatim>\<open>null\<close>, a boolean, a number, a string, an array,
  or an object, given by its own properties in order, each name once.
\<close>

datatype json =
    JNull
  | JBoolean bool
  | JNumber number
  | JString jsstring
  | JArray "json list"
  | JObject "(jsstring \<times> json) list"

text \<open>
  The value of a property of a parsed value that is not \<^verbatim>\<open>null\<close>; \<open>None\<close> is
  \<^verbatim>\<open>undefined\<close>. A boolean, a number, a string and an array have no property named
  \<^verbatim>\<open>date\<close> or \<^verbatim>\<open>count\<close>, the two names that the source reads.
\<close>

definition Get :: "json \<Rightarrow> jsstring \<Rightarrow> json option" where
  "Get v name = (case v of JObject props \<Rightarrow> map_of props name | _ \<Rightarrow> None)"

text \<open>
  The conversions that \<^verbatim>\<open>>=\<close> and \<^verbatim>\<open>+\<close> apply to an operand. \<open>ToPrimitive\<close> turns an
  array into the texts of its elements joined by commas (\<^verbatim>\<open>Array.prototype.join\<close>,
  where \<^verbatim>\<open>null\<close> gives the empty text) and an object into
  \<^verbatim>\<open>[object Object]\<close>. No property of a value read from JSON is a function, so an
  object with a property of its own named \<^verbatim>\<open>toString\<close> hides the method of
  \<^verbatim>\<open>Object.prototype\<close> and has no primitive value: the conversion throws a
  \<^verbatim>\<open>TypeError\<close>, which is the result \<open>None\<close>. \<open>ToNumber\<close> turns a primitive value
  into a number. Two conversions of the language are parameters of the model:
  \<open>NumberToString\<close>, the decimal text of a number (\<^verbatim>\<open>Number::toString\<close>), and
  \<open>StringToNumber\<close>, the number that a text denotes, \<^verbatim>\<open>NaN\<close> when it denotes none.
\<close>

fun join :: "jsstring list \<Rightarrow> jsstring" where
  "join [] = []"
| "join [x] = x"
| "join (x # y # ys) = x @ 0x2C # join (y # ys)"

fun ToString :: "(number \<Rightarrow> jsstring) \<Rightarrow> json \<Rightarrow> jsstring option" where
  "ToString NumberToString JNull = Some (js ''null'')"
| "ToString NumberToString (JBoolean b) = Some (if b then js ''true'' else js ''false'')"
| "ToString NumberToString (JNumber x) = Some (NumberToString x)"
| "ToString NumberToString (JString s) = Some s"
| "ToString NumberToString (JArray xs) =
     map_option join
       (those (map (\<lambda>x. if x = JNull then Some [] else ToString NumberToString x) xs))"
| "ToString NumberToString (JObject props) =
     (if map_of props (js ''toString'') = None then Some (js ''[object Object]'') else None)"

datatype primitive =
    PUndefined
  | PNull
  | PBoolean bool
  | PNumber number
  | PString jsstring

definition ToPrimitive :: "(number \<Rightarrow> jsstring) \<Rightarrow> json option \<Rightarrow> primitive option" where
  "ToPrimitive NumberToString v =
     (case v of
        None \<Rightarrow> Some PUndefined
      | Some JNull \<Rightarrow> Some PNull
      | Some (JBoolean b) \<Rightarrow> Some (PBoolean b)
      | Some (JNumber x) \<Rightarrow> Some (PNumber x)
      | Some (JString s) \<Rightarrow> Some (PString s)
      | Some (JArray xs) \<Rightarrow> map_option PString (ToString NumberToString (JArray xs))
      | Some (JObject props) \<Rightarrow> map_option PString (ToString NumberToString (JObject props)))"

text \<open>
  The values without a primitive value: an object with a property named
  \<^verbatim>\<open>toString\<close>, and an array that holds such a value.
\<close>

fun hidesToString :: "json \<Rightarrow> bool" where
  "hidesToString (JObject props) = (map_of props (js ''toString'') \<noteq> None)"
| "hidesToString (JArray xs) = list_ex hidesToString xs"
| "hidesToString v = False"

definition ToNumber :: "(jsstring \<Rightarrow> number) \<Rightarrow> primitive \<Rightarrow> number" where
  "ToNumber StringToNumber p =
     (case p of
        PUndefined \<Rightarrow> NaN
      | PNull \<Rightarrow> Finite 0
      | PBoolean b \<Rightarrow> Finite (if b then 1 else 0)
      | PNumber x \<Rightarrow> x
      | PString s \<Rightarrow> StringToNumber s)"

text \<open>
  \<^verbatim>\<open>count >= 100\<close> and \<^verbatim>\<open>count + 1\<close> for the primitive value \<open>p\<close> of \<open>count\<close>. The
  sum is a text when \<open>p\<close> is one: the text of 1 is appended.
\<close>

definition atLeast100 :: "(jsstring \<Rightarrow> number) \<Rightarrow> primitive \<Rightarrow> bool" where
  "atLeast100 StringToNumber p = greaterEqual (ToNumber StringToNumber p) 100"

definition plusOne :: "(jsstring \<Rightarrow> number) \<Rightarrow> primitive \<Rightarrow> primitive" where
  "plusOne StringToNumber p =
     (case p of
        PString s \<Rightarrow> PString (s @ js ''1'')
      | _ \<Rightarrow> PNumber (plus_1 (ToNumber StringToNumber p)))"

text \<open>
  What \<^verbatim>\<open>JSON.parse\<close> reads back from the text that \<^verbatim>\<open>JSON.stringify\<close> writes for a
  property with a primitive value: the same value, but \<^verbatim>\<open>null\<close> for \<^verbatim>\<open>NaN\<close> and the
  infinities, and nothing (the property is left out) for \<^verbatim>\<open>undefined\<close>.
\<close>

definition reread :: "primitive \<Rightarrow> json option" where
  "reread p =
     (case p of
        PUndefined \<Rightarrow> None
      | PNull \<Rightarrow> Some JNull
      | PBoolean b \<Rightarrow> Some (JBoolean b)
      | PNumber (Finite q) \<Rightarrow> Some (JNumber (Finite q))
      | PNumber x \<Rightarrow> Some JNull
      | PString s \<Rightarrow> Some (JString s))"

section \<open>Rate limiter\<close>

text \<open>
  The item \<^verbatim>\<open>projectCount\<close> of \<^verbatim>\<open>localStorage\<close> is a string or absent, and any
  text can be in it. The model keeps what \<^verbatim>\<open>checkRateLimit\<close> makes of it: \<open>None\<close> when
  \<^verbatim>\<open>getItem\<close> gives \<^verbatim>\<open>null\<close> or the empty string (both fail the test
  \<^verbatim>\<open>if (stored)\<close>), \<open>Unparsable\<close> for a text on which \<^verbatim>\<open>JSON.parse\<close> throws, and
  \<open>Parsed v\<close> for a text that it parses to the value \<open>v\<close>. \<open>usage d c\<close> is the object
  \<^verbatim>\<open>{date: d, count: c}\<close>, and \<open>written\<close> the item after
  \<^verbatim>\<open>setItem('projectCount', JSON.stringify({date: today, count: c}))\<close>, which is taken
  to succeed. An exception of the source is the left summand of the result. There are
  three: \<^verbatim>\<open>JSON.parse\<close> throws a \<^verbatim>\<open>SyntaxError\<close>, the destructuring
  \<^verbatim>\<open>const { date, count } = JSON.parse(stored)\<close> throws a \<^verbatim>\<open>TypeError\<close> when the
  parsed value is \<^verbatim>\<open>null\<close>, and \<^verbatim>\<open>count >= 100\<close> throws a \<^verbatim>\<open>TypeError\<close> when
  \<open>count\<close> has no primitive value. \<^verbatim>\<open>>=\<close> and \<^verbatim>\<open>+\<close> each convert \<open>count\<close> to its
  primitive value, with the same outcome; the model converts once.
\<close>

datatype stored = Unparsable | Parsed json

datatype js_error = SyntaxError | TypeError | Error jsstring

definition usage :: "jsstring \<Rightarrow> json \<Rightarrow> json" where
  "usage d c = JObject [(js ''date'', JString d), (js ''count'', c)]"

definition written :: "jsstring \<Rightarrow> primitive \<Rightarrow> stored" where
  "written today c =
     Parsed (JObject ((js ''date'', JString today)
                      # (case reread c of None \<Rightarrow> [] | Some v \<Rightarrow> [(js ''count'', v)])))"

definition checkRateLimit ::
  "(jsstring \<Rightarrow> number) \<Rightarrow> (number \<Rightarrow> jsstring) \<Rightarrow> jsstring \<Rightarrow> stored option
     \<Rightarrow> (js_error + bool) \<times> stored option" where
  "checkRateLimit StringToNumber NumberToString today stored =
     (case stored of
        Some Unparsable \<Rightarrow> (Inl SyntaxError, stored)
      | Some (Parsed v) \<Rightarrow>
          if v = JNull then (Inl TypeError, stored)
          else
            let date = Get v (js ''date''); count = Get v (js ''count'')
            in if date = Some (JString today) then
                 (case ToPrimitive NumberToString count of
                    None \<Rightarrow> (Inl TypeError, stored)
                  | Some p \<Rightarrow>
                      if atLeast100 StringToNumber p then (Inr False, stored)
                      else (Inr True, Some (written today (plusOne StringToNumber p))))
               else (Inr True, Some (written today (PNumber (Finite 1))))
      | None \<Rightarrow> (Inr True, Some (written today (PNumber (Finite 1)))))"

text \<open>The item after \<open>n\<close> calls on the day \<open>today\<close>.\<close>

fun after_calls ::
  "(jsstring \<Rightarrow> number) \<Rightarrow> (number \<Rightarrow> jsstring) \<Rightarrow> jsstring \<Rightarrow> nat \<Rightarrow> stored option
     \<Rightarrow> stored option" where
  "after_calls StringToNumber NumberToString today 0 stored = stored"
| "after_calls StringToNumber NumberToString today (Suc n) stored =
     after_calls StringToNumber NumberToString today n
       (snd (checkRateLimit StringToNumber NumberToString today stored))"

section \<open>Fallback questions\<close>

datatype question_type = standard | outside_box

text \<open>The interface \<^verbatim>\<open>Question\<close>; \<open>qid\<close> is its field \<^verbatim>\<open>id\<close>.\<close>

record Question =
  qid :: nat
  category :: jsstring
  question :: jsstring
  icon :: jsstring
  type :: question_type

text \<open>
  The array literal \<^verbatim>\<open>fallbackQuestions\<close>, built at every call. The text of its first
  entry is a template that quotes \<^verbatim>\<open>projectDesc.substring(0, 50)\<close>; the icons are
  the code units of the emoji of the source.
\<close>

definition fallbackQuestions :: "jsstring \<Rightarrow> Question list" where
  \<open>fallbackQuestions projectDesc =
     [\<lparr>qid = 1, category = js ''Project Vision'',
       question = js ''What specific problem does "'' @ take 50 projectDesc @ js ''..." solve?'',
       icon = [0xD83C, 0xDFAF], type = standard\<rparr>,
      \<lparr>qid = 2, category = js ''Target Audience'',
       question = js ''Who exactly will use this? Describe their demographics and needs.'',
       icon = [0xD83D, 0xDC65], type = standard\<rparr>,
      \<lparr>qid = 3, category = js ''Timeline'',
       question = js ''When do you need this completed? Any critical deadlines?'',
       icon = [0xD83D, 0xDCC5], type = standard\<rparr>,
      \<lparr>qid = 4, category = js ''Budget'',
       question = js ''What is your total budget? Maximum you're willing to spend?'',
       icon = [0xD83D, 0xDCB0], type = standard\<rparr>,
      \<lparr>qid = 5, category = js ''Success Metrics'',
       question = js ''How will you measure if this project is successful?'',
       icon = [0xD83D, 0xDCCA], type = standard\<rparr>,
      \<lparr>qid = 6, category = js ''Key Features'',
       question = js ''What are the must-have features versus nice-to-have?'',
       icon = [0x26A1], type = standard\<rparr>,
      \<lparr>qid = 7, category = js ''Resources'',
       question = js ''What resources (people, tools, equipment) do you currently have?'',
       icon = [0xD83D, 0xDEE0, 0xFE0F], type = standard\<rparr>,
      \<lparr>qid = 8, category = js ''Dependencies'',
       question = js ''Does this project depend on any other projects or external factors?'',
       icon = [0xD83D, 0xDD17], type = standard\<rparr>,
      \<lparr>qid = 9, category = js ''Risks'',
       question = js ''What are the top 3 risks that could derail this project?'',
       icon = [0x26A0, 0xFE0F], type = outside_box\<rparr>,
      \<lparr>qid = 10, category = js ''Stakeholders'',
       question = js ''Who needs to approve decisions? Who are all key stakeholders?'',
       icon = [0xD83D, 0xDC54], type = standard\<rparr>]\<close>

text \<open>
  \<^verbatim>\<open>fallbackQuestions[Math.min(questionCount, fallbackQuestions.length - 1)]\<close>. Reading a
  JavaScript array out of range gives \<^verbatim>\<open>undefined\<close>: that is \<open>None\<close> here.
\<close>

definition getFallbackQuestion :: "jsstring \<Rightarrow> nat \<Rightarrow> Question option" where
  "getFallbackQuestion projectDesc questionCount =
     (let fallbackQuestions = fallbackQuestions projectDesc;
          i = min questionCount (length fallbackQuestions - 1)
      in if i < length fallbackQuestions then Some (fallbackQuestions ! i) else None)"

section \<open>Oracle client\<close>

text \<open>
  \<^verbatim>\<open>getApiKey\<close> reads the configured key and the item \<^verbatim>\<open>lastApiCall\<close> of
  \<^verbatim>\<open>sessionStorage\<close> and returns the key with the item updated, or throws. The item is
  kept as the number \<^verbatim>\<open>parseInt\<close> reads from it: \<open>None\<close> when it is absent, empty or
  not a number, where the test \<^verbatim>\<open>lastCall && now - parseInt(lastCall) < 1000\<close> is false.
  \<open>now\<close> is \<^verbatim>\<open>Date.now()\<close>, in milliseconds.
\<close>

definition getApiKey ::
  "jsstring option \<Rightarrow> int option \<Rightarrow> int \<Rightarrow> (js_error + jsstring) \<times> int option" where
  "getApiKey configured lastCall now =
     (case configured of
        None \<Rightarrow> (Inl (Error (js ''API key not configured'')), lastCall)
      | Some key \<Rightarrow>
          if key = [] then (Inl (Error (js ''API key not configured'')), lastCall)
          else
            (case lastCall of
               None \<Rightarrow> (Inr key, Some now)
             | Some t \<Rightarrow>
                 if now - t < 1000 then (Inl (Error (js ''Too many requests'')), lastCall)
                 else (Inr key, Some now)))"

text \<open>
  \<^verbatim>\<open>text.match(/\{[\s\S]*\}/)\<close>: the match starts at the first opening brace that has a
  closing brace after it, which is the first opening brace of the text or none, and the
  greedy star makes it end at the last closing brace of the text.
\<close>

definition jsonMatch :: "jsstring \<Rightarrow> jsstring option" where
  "jsonMatch text =
     (case dropWhile (\<lambda>c. c \<noteq> 0x7B) text of
        [] \<Rightarrow> None
      | brace # body \<Rightarrow>
          if 0x7D \<in> set body
          then Some (brace # rev (dropWhile (\<lambda>c. c \<noteq> 0x7D) (rev body)))
          else None)"

text \<open>
  What the generation service does with the prompt: \<^verbatim>\<open>generateContent\<close> throws, or
  gives a response whose \<^verbatim>\<open>text\<close> is a string or \<^verbatim>\<open>undefined\<close>.
\<close>

datatype response = GenerateThrows | Response "jsstring option"

text \<open>
  The object \<^verbatim>\<open>data\<close> that \<^verbatim>\<open>JSON.parse\<close> returns, with the fields of the three reply
  shapes that the prompt of the source lays down, typed as the prompt and the interface
  \<^verbatim>\<open>Question\<close> type them; a field that a shape does not carry is not read on the path
  of that shape. \<^verbatim>\<open>JSON.parse\<close> itself is a parameter \<open>JSON_parse\<close> of the client, with
  \<open>None\<close> where it throws.
\<close>

record oracle_data =
  data_shouldContinue :: bool
  data_isValid :: bool
  data_validationType :: jsstring
  data_validationMessage :: jsstring
  data_reasoning :: jsstring
  data_category :: jsstring
  data_question :: jsstring
  data_icon :: jsstring
  data_type :: question_type

text \<open>
  The results of \<^verbatim>\<open>generateNextQuestion\<close> other than \<^verbatim>\<open>null\<close>:
  \<^verbatim>\<open>{question: {}, shouldContinue: false}\<close> is \<open>Stop\<close>, and
  \<^verbatim>\<open>{question: q, shouldContinue: true}\<close> is \<open>Continue q\<close>.
\<close>

datatype decision = Stop | Continue Question

text \<open>
  \<^verbatim>\<open>generateNextQuestion\<close>. Every exception inside its \<^verbatim>\<open>try\<close> block ends in the
  \<^verbatim>\<open>catch\<close> that returns \<^verbatim>\<open>null\<close>: those of \<^verbatim>\<open>getApiKey\<close>, of
  \<^verbatim>\<open>generateContent\<close>, of \<^verbatim>\<open>text.match\<close> on an undefined text and of
  \<^verbatim>\<open>JSON.parse\<close>. The prompt is built from the arguments and handed to the service; the
  service's answer is the argument \<open>resp\<close>. The second component of the result is the
  item \<^verbatim>\<open>lastApiCall\<close> afterwards.
\<close>

definition generateNextQuestion ::
  "(jsstring \<Rightarrow> oracle_data option) \<Rightarrow> jsstring option \<Rightarrow> int option \<Rightarrow> int \<Rightarrow>
   jsstring \<Rightarrow> (jsstring \<times> jsstring) list \<Rightarrow> response \<Rightarrow> decision option \<times> int option" where
  "generateNextQuestion JSON_parse key lastCall now projectDesc previousQA resp =
     (case getApiKey key lastCall now of
        (Inl e, lastCall') \<Rightarrow> (None, lastCall')
      | (Inr apiKey, lastCall') \<Rightarrow>
          (case resp of
             GenerateThrows \<Rightarrow> (None, lastCall')
           | Response None \<Rightarrow> (None, lastCall')
           | Response (Some text) \<Rightarrow>
               (case jsonMatch text of
                  None \<Rightarrow> (None, lastCall')
                | Some matched \<Rightarrow>
                    (case JSON_parse matched of
                       None \<Rightarrow> (None, lastCall')
                     | Some data \<Rightarrow>
                         if \<not> data_shouldContinue data then (Some Stop, lastCall')
                         else (Some (Continue
                                 \<lparr>qid = length previousQA + 1,
                                  category = data_category data,
                                  question = data_question data,
                                  icon = data_icon data,
                                  type = data_type data\<rparr>), lastCall')))))"

section \<open>Questioning controller\<close>

datatype page = Home | Questioning | Summary

text \<open>
  The state of the component (the nine \<^verbatim>\<open>useState\<close> cells), the two storage items
  and the configured key. \<open>answers\<close> is the object \<^verbatim>\<open>answers\<close>, keyed by the index of
  the question.
\<close>

record state =
  page :: page
  projectInput :: jsstring
  questions :: "Question list"
  currentQuestionIndex :: nat
  answers :: "nat \<rightharpoonup> jsstring"
  currentAnswer :: jsstring
  isGenerating :: bool
  inputError :: jsstring
  isGeneratingQuestion :: bool
  projectCount :: "stored option"
  lastApiCall :: "int option"
  apiKey :: "jsstring option"

definition initial :: "stored option \<Rightarrow> int option \<Rightarrow> jsstring option \<Rightarrow> state" where
  "initial stored lastCall key =
     \<lparr>page = Home, projectInput = [], questions = [], currentQuestionIndex = 0,
      answers = Map.empty, currentAnswer = [], isGenerating = False, inputError = [],
      isGeneratingQuestion = False, projectCount = stored, lastApiCall = lastCall,
      apiKey = key\<rparr>"

definition handleInputChange :: "jsstring \<Rightarrow> state \<Rightarrow> state" where
  "handleInputChange v s =
     (if inputError s \<noteq> [] \<and> 0 < length v
      then s\<lparr>projectInput := v, inputError := []\<rparr>
      else s\<lparr>projectInput := v\<rparr>)"

definition rateLimitMessage :: jsstring where
  "rateLimitMessage =
     js ''You have reached your limit of 5 projects per day. Please try again tomorrow!''"

definition noQuestionsMessage :: jsstring where
  "noQuestionsMessage =
     js ''AI determined no questions needed. Please provide more project details.''"

text \<open>
  Each handler is one transition: the source awaits the service inside the handler, and
  while it waits the page shows a spinner in place of the buttons. An exception of
  \<^verbatim>\<open>checkRateLimit\<close> is not caught: the handler ends there and no state is set. Where
  \<^verbatim>\<open>getFallbackQuestion\<close> would give \<^verbatim>\<open>undefined\<close> the model appends nothing; the
  branch is never taken. The two conversions that \<^verbatim>\<open>checkRateLimit\<close> takes are
  parameters of \<^verbatim>\<open>handleStartProject\<close> and of the controller, as \<^verbatim>\<open>JSON.parse\<close> is.
\<close>

definition handleStartProject ::
  "(jsstring \<Rightarrow> oracle_data option) \<Rightarrow> (jsstring \<Rightarrow> number) \<Rightarrow> (number \<Rightarrow> jsstring)
     \<Rightarrow> jsstring \<Rightarrow> int \<Rightarrow> response \<Rightarrow> state \<Rightarrow> state" where
  "handleStartProject JSON_parse StringToNumber NumberToString today now resp s =
     (let validation = validateInput (projectInput s)
      in if \<not> valid validation then s\<lparr>inputError := error validation\<rparr>
         else
           (case checkRateLimit StringToNumber NumberToString today (projectCount s) of
              (Inl e, stored) \<Rightarrow> s
            | (Inr False, stored) \<Rightarrow> s\<lparr>projectCount := stored, inputError := rateLimitMessage\<rparr>
            | (Inr True, stored) \<Rightarrow>
                (case generateNextQuestion JSON_parse (apiKey s) (lastApiCall s) now
                        (projectInput s) [] resp of
                   (result, lastCall) \<Rightarrow>
                     let s1 = s\<lparr>projectCount := stored, lastApiCall := lastCall,
                                inputError := [], isGenerating := False\<rparr>
                     in (case result of
                           Some (Continue q) \<Rightarrow>
                             s1\<lparr>questions := [q], page := Questioning,
                                currentQuestionIndex := 0\<rparr>
                         | Some Stop \<Rightarrow> s1\<lparr>inputError := noQuestionsMessage\<rparr>
                         | None \<Rightarrow>
                             (case getFallbackQuestion (projectInput s) 0 of
                                Some fallback \<Rightarrow>
                                  s1\<lparr>questions := [fallback], page := Questioning,
                                     currentQuestionIndex := 0\<rparr>
                              | None \<Rightarrow> s1)))))"

text \<open>
  The context \<^verbatim>\<open>previousQA\<close> of \<^verbatim>\<open>handleAnswerSubmit\<close>: the questions up to the
  current one, each with its answer (\<^verbatim>\<open>answers[idx] || ''\<close>, and the answer being
  submitted for the current one), without those whose answer is empty.
\<close>

definition submitContext :: "state \<Rightarrow> (jsstring \<times> jsstring) list" where
  "submitContext s =
     filter (\<lambda>qa. snd qa \<noteq> [])
       (map (\<lambda>(idx, q).
               (question q,
                if idx = currentQuestionIndex s then currentAnswer s
                else (case answers s idx of None \<Rightarrow> [] | Some a \<Rightarrow> a)))
          (enumerate 0 (take (currentQuestionIndex s + 1) (questions s))))"

definition handleAnswerSubmit ::
  "(jsstring \<Rightarrow> oracle_data option) \<Rightarrow> int \<Rightarrow> response \<Rightarrow> state \<Rightarrow> state" where
  "handleAnswerSubmit JSON_parse now resp s =
     (if trim (currentAnswer s) = [] then s
      else
        let newAnswers = (answers s)(currentQuestionIndex s \<mapsto> currentAnswer s);
            previousQA = submitContext s;
            s1 = s\<lparr>answers := newAnswers, currentAnswer := [], isGeneratingQuestion := False\<rparr>
        in if length previousQA < 20 then
             (case generateNextQuestion JSON_parse (apiKey s) (lastApiCall s) now
                     (projectInput s) previousQA resp of
                (result, lastCall) \<Rightarrow>
                  let s2 = s1\<lparr>lastApiCall := lastCall\<rparr>
                  in (case result of
                        Some (Continue q) \<Rightarrow>
                          s2\<lparr>questions := questions s @ [q],
                             currentQuestionIndex := currentQuestionIndex s + 1\<rparr>
                      | Some Stop \<Rightarrow> s2\<lparr>page := Summary\<rparr>
                      | None \<Rightarrow>
                          (case getFallbackQuestion (projectInput s) (length previousQA) of
                             Some fallback \<Rightarrow>
                               s2\<lparr>questions := questions s @ [fallback],
                                  currentQuestionIndex := currentQuestionIndex s + 1\<rparr>
                           | None \<Rightarrow> s2)))
           else s1\<lparr>page := Summary\<rparr>)"

text \<open>
  The context of \<^verbatim>\<open>skipQuestion\<close>: the questions before the current one that have an
  answer.
\<close>

definition skipContext :: "state \<Rightarrow> (jsstring \<times> jsstring) list" where
  "skipContext s =
     filter (\<lambda>qa. snd qa \<noteq> [])
       (map (\<lambda>(idx, q). (question q, (case answers s idx of None \<Rightarrow> [] | Some a \<Rightarrow> a)))
          (enumerate 0 (take (currentQuestionIndex s) (questions s))))"

definition skipQuestion ::
  "(jsstring \<Rightarrow> oracle_data option) \<Rightarrow> int \<Rightarrow> response \<Rightarrow> state \<Rightarrow> state" where
  "skipQuestion JSON_parse now resp s =
     (let previousQA = skipContext s;
          s1 = s\<lparr>currentAnswer := [], isGeneratingQuestion := False\<rparr>
      in if length previousQA < 20 then
           (case generateNextQuestion JSON_parse (apiKey s) (lastApiCall s) now
                   (projectInput s) previousQA resp of
              (result, lastCall) \<Rightarrow>
                let s2 = s1\<lparr>lastApiCall := lastCall\<rparr>
                in (case result of
                      Some (Continue q) \<Rightarrow>
                        s2\<lparr>questions := questions s @ [q],
                           currentQuestionIndex := currentQuestionIndex s + 1\<rparr>
                    | Some Stop \<Rightarrow> s2\<lparr>page := Summary\<rparr>
                    | None \<Rightarrow> s2\<lparr>page := Summary\<rparr>))
         else s1\<lparr>page := Summary\<rparr>)"

definition finishQuestioning :: "state \<Rightarrow> state" where
  "finishQuestioning s = s\<lparr>page := Summary\<rparr>"

text \<open>The button "Start New Project" of the summary page.\<close>

definition startNewProject :: "state \<Rightarrow> state" where
  "startNewProject s =
     s\<lparr>page := Home, projectInput := [], answers := Map.empty, currentQuestionIndex := 0,
       questions := []\<rparr>"

text \<open>
  What the user can do. Each page renders its own controls only: the text area and the
  start button on the home page (the button disabled while the input is blank or an error
  is shown), the answer area and the three buttons on the questioning page (the first one
  disabled while the answer is blank), the restart button on the summary page. An action
  that the page does not offer leaves the state as it is.
\<close>

datatype action =
    InputChange jsstring
  | StartProject jsstring int response
  | AnswerChange jsstring
  | AnswerSubmit int response
  | SkipQuestion int response
  | FinishQuestioning
  | StartNewProject

fun step ::
  "(jsstring \<Rightarrow> oracle_data option) \<Rightarrow> (jsstring \<Rightarrow> number) \<Rightarrow> (number \<Rightarrow> jsstring)
     \<Rightarrow> state \<Rightarrow> action \<Rightarrow> state" where
  "step JSON_parse StringToNumber NumberToString s (InputChange v) =
     (if page s = Home then handleInputChange v s else s)"
| "step JSON_parse StringToNumber NumberToString s (StartProject today now resp) =
     (if page s = Home \<and> trim (projectInput s) \<noteq> [] \<and> \<not> isGenerating s \<and> inputError s = []
      then handleStartProject JSON_parse StringToNumber NumberToString today now resp s else s)"
| "step JSON_parse StringToNumber NumberToString s (AnswerChange v) =
     (if page s = Questioning then s\<lparr>currentAnswer := v\<rparr> else s)"
| "step JSON_parse StringToNumber NumberToString s (AnswerSubmit now resp) =
     (if page s = Questioning \<and> trim (currentAnswer s) \<noteq> []
      then handleAnswerSubmit JSON_parse now resp s else s)"
| "step JSON_parse StringToNumber NumberToString s (SkipQuestion now resp) =
     (if page s = Questioning then skipQuestion JSON_parse now resp s else s)"
| "step JSON_parse StringToNumber NumberToString s FinishQuestioning =
     (if page s = Questioning then finishQuestioning s else s)"
| "step JSON_parse StringToNumber NumberToString s StartNewProject =
     (if page s = Summary then startNewProject s else s)"

definition run ::
  "(jsstring \<Rightarrow> oracle_data option) \<Rightarrow> (jsstring \<Rightarrow> number) \<Rightarrow> (number \<Rightarrow> jsstring)
     \<Rightarrow> state \<Rightarrow> action list \<Rightarrow> state" where
  "run JSON_parse StringToNumber NumberToString s as =
     foldl (step JSON_parse StringToNumber NumberToString) s as"

section \<open>Analytics\<close>

text \<open>
  \<^verbatim>\<open>Math.round\<close>: the integer closest to the argument, the larger one of two equally
  close integers.
\<close>

definition Math_round :: "rat \<Rightarrow> int" where
  "Math_round x = \<lfloor>x + 1 / 2\<rfloor>"

datatype risk = Low | Medium | High

record analytics =
  answeredCount :: nat
  totalQuestions :: nat
  completeness :: int
  scopeRiskScore :: risk
  hasBudgetInfo :: bool
  hasTimelineInfo :: bool
  outsideBoxAnswered :: nat

text \<open>
  The entries of \<^verbatim>\<open>answers\<close> whose question satisfies a test. A key beyond the end of
  \<^verbatim>\<open>questions\<close> reads \<^verbatim>\<open>undefined\<close> there, and \<^verbatim>\<open>?.\<close> makes the test false.
\<close>

definition answeredWhere :: "(Question \<Rightarrow> bool) \<Rightarrow> Question list \<Rightarrow> (nat \<rightharpoonup> jsstring) \<Rightarrow> nat list" where
  "answeredWhere test qs ans = filter (\<lambda>idx. ans idx \<noteq> None \<and> test (qs ! idx)) [0..<length qs]"

text \<open>
  \<^verbatim>\<open>calculateAnalytics\<close>, with the two cells it reads as arguments.
  \<^verbatim>\<open>String.prototype.toLowerCase\<close> is the parameter \<open>toLowerCase\<close>. The counts are
  binary64 values themselves; their quotient and its product with 100 are rounded by
  \<open>fl64\<close>.
\<close>

definition calculateAnalytics ::
  "(jsstring \<Rightarrow> jsstring) \<Rightarrow> Question list \<Rightarrow> (nat \<rightharpoonup> jsstring) \<Rightarrow> analytics" where
  "calculateAnalytics toLowerCase qs ans =
     (let answeredCount = card (dom ans);
          totalQuestions = length qs;
          completeness =
            (if 0 < totalQuestions
             then Math_round (fl64 (fl64 (of_nat answeredCount / of_nat totalQuestions) * 100))
             else 0);
          scopeRiskScore =
            (if completeness < 60 then High else if completeness < 80 then Medium else Low);
          budgetAnswers =
            answeredWhere (\<lambda>q. js_includes (toLowerCase (category q)) (js ''budget'')) qs ans;
          timelineAnswers =
            answeredWhere (\<lambda>q. js_includes (toLowerCase (category q)) (js ''timeline'')) qs ans
      in \<lparr>answeredCount = answeredCount,
          totalQuestions = totalQuestions,
          completeness = completeness,
          scopeRiskScore = scopeRiskScore,
          hasBudgetInfo = (0 < length budgetAnswers),
          hasTimelineInfo = (0 < length timelineAnswers),
          outsideBoxAnswered = length (answeredWhere (\<lambda>q. type q = outside_box) qs ans)\<rparr>)"

section \<open>Sample inputs\<close>

text \<open>
  Concrete inputs for the examples below: a description that passes the validator, a
  calendar day, four replies of the service (one that embeds a continue decision, one that
  is a rejection, one without braces, one whose braces hold no JSON), and a stand-in for
  \<^verbatim>\<open>JSON.parse\<close> that reads the two objects of these replies and throws on any other
  text.
\<close>

definition sampleData :: "bool \<Rightarrow> oracle_data" where
  "sampleData continue =
     \<lparr>data_shouldContinue = continue, data_isValid = continue,
      data_validationType = js ''task'',
      data_validationMessage = js ''This seems like a simple task rather than a project.'',
      data_reasoning = js ''Rejected because: a daily activity'',
      data_category = js ''Budget'', data_question = js ''What is the budget ceiling?'',
      data_icon = [0xD83D, 0xDCB0], data_type = standard\<rparr>"

definition sampleParse :: "jsstring \<Rightarrow> oracle_data option" where
  \<open>sampleParse matched =
     (if matched = js ''{"shouldContinue": true}'' then Some (sampleData True)
      else if matched = js ''{"shouldContinue": false}'' then Some (sampleData False)
      else None)\<close>

text \<open>
  Stand-ins for the two conversions: \<open>sampleToNumber\<close> reads an unsigned decimal numeral
  of at most 15 digits and gives \<^verbatim>\<open>NaN\<close> on any other text, and \<open>sampleToString\<close>
  writes a natural number below \<open>10\<^sup>1\<^sup>5\<close> in decimal digits.
\<close>

definition sampleToNumber :: "jsstring \<Rightarrow> number" where
  "sampleToNumber s =
     (if s \<noteq> [] \<and> length s \<le> 15 \<and> list_all (\<lambda>c. 0x30 \<le> c \<and> c \<le> 0x39) s
      then Finite (of_nat (foldl (\<lambda>n c. 10 * n + (unat c - 48)) 0 s))
      else NaN)"

function decimal :: "nat \<Rightarrow> jsstring" where
  "decimal n =
     (if n < 10 then [of_nat (48 + n)] else decimal (n div 10) @ [of_nat (48 + n mod 10)])"
  by pat_completeness auto

termination
  by (relation "measure id") auto

declare decimal.simps [simp del]

definition sampleToString :: "number \<Rightarrow> jsstring" where
  "sampleToString x =
     (case x of
        Finite q \<Rightarrow>
          if 0 \<le> q \<and> q < 10 ^ 15 \<and> q = of_int \<lfloor>q\<rfloor> then decimal (nat \<lfloor>q\<rfloor>) else js ''NaN''
      | Infinity \<Rightarrow> js ''Infinity''
      | NegInfinity \<Rightarrow> js ''-Infinity''
      | NaN \<Rightarrow> js ''NaN'')"

definition continueReply :: response where
  \<open>continueReply = Response (Some (js ''Here it is: {"shouldContinue": true} done''))\<close>

definition rejectReply :: response where
  \<open>rejectReply = Response (Some (js ''{"shouldContinue": false}''))\<close>

definition proseReply :: response where
  "proseReply = Response (Some (js ''I cannot help with that.''))"

definition brokenReply :: response where
  "brokenReply = Response (Some (js ''{not json}''))"

definition sampleDescription :: jsstring where
  "sampleDescription = js ''build a mobile app for dog walkers''"

definition sampleDay :: jsstring where
  "sampleDay = js ''Mon Nov 02 2026''"

text \<open>A new session with a configured key and empty stores.\<close>

definition fresh :: state where
  "fresh = initial None None (Some (js ''key''))"

text \<open>The user types the sample description and presses the start button at time 0.\<close>

definition start :: "response \<Rightarrow> action list" where
  "start resp = [InputChange sampleDescription, StartProject sampleDay 0 resp]"

text \<open>
  \<open>n\<close> presses of the skip button, two seconds apart, each answered by the continue
  reply.
\<close>

definition skips :: "nat \<Rightarrow> action list" where
  "skips n = map (\<lambda>i. SkipQuestion (2000 * int (Suc i)) continueReply) [0..<n]"

text \<open>
  \<open>n\<close> answers, two seconds apart, each met by the reply without braces, so that every
  question of the session comes from the fallback list.
\<close>

definition answersWithoutOracle :: "nat \<Rightarrow> action list" where
  "answersWithoutOracle n =
     concat (map (\<lambda>i. [AnswerChange (js ''yes''), AnswerSubmit (2000 * int (Suc i)) proseReply])
               [0..<n])"

text \<open>The badge of the home page that states the daily allowance.\<close>

definition projectsPerDayBadge :: jsstring where
  "projectsPerDayBadge = [0xD83D, 0xDCCA] @ js '' 2 Projects/Day''"

text \<open>
  For the analytics: \<open>n\<close> questions of one category, answers to the first \<open>n\<close>
  positions, and \<^verbatim>\<open>toLowerCase\<close> on the letters A to Z.
\<close>

definition sampleQuestions :: "nat \<Rightarrow> Question list" where
  "sampleQuestions n =
     replicate n \<lparr>qid = 1, category = js ''Scope'', question = js ''What is in scope?'',
                   icon = [0xD83C, 0xDFAF], type = standard\<rparr>"

definition sampleAnswers :: "nat \<Rightarrow> (nat \<rightharpoonup> jsstring)" where
  "sampleAnswers n = (\<lambda>idx. if idx < n then Some (js ''yes'') else None)"

definition asciiLower :: "jsstring \<Rightarrow> jsstring" where
  "asciiLower s = map (\<lambda>c. if 0x41 \<le> c \<and> c \<le> 0x5A then c + 0x20 else c) s"

section \<open>Invariants of a session\<close>

text \<open>
  What holds of every state that the actions reach from an initial state. On the home
  page nothing is answered; on the questioning page the current question exists, every
  answer belongs to an earlier question and is not empty, and fewer than 20 questions are
  answered; on the summary page at most 20 are.
\<close>

definition session_inv :: "state \<Rightarrow> bool" where
  "session_inv s =
     (case page s of
        Home \<Rightarrow> answers s = Map.empty
      | Questioning \<Rightarrow>
          currentQuestionIndex s < length (questions s)
          \<and> dom (answers s) \<subseteq> {..<currentQuestionIndex s}
          \<and> [] \<notin> ran (answers s)
          \<and> card (dom (answers s)) < 20
      | Summary \<Rightarrow> card (dom (answers s)) \<le> 20)"

text \<open>
  What holds in addition while the user never skips: the current question is the last
  one, all earlier ones are answered, and the list has at most 20 questions.
\<close>

definition answered_inv :: "state \<Rightarrow> bool" where
  "answered_inv s =
     (case page s of
        Home \<Rightarrow> questions s = []
      | Questioning \<Rightarrow>
          length (questions s) = currentQuestionIndex s + 1
          \<and> dom (answers s) = {..<currentQuestionIndex s}
      | Summary \<Rightarrow> length (questions s) \<le> 20)"

definition is_skip :: "action \<Rightarrow> bool" where
  "is_skip a = (case a of SkipQuestion now resp \<Rightarrow> True | _ \<Rightarrow> False)"

text \<open>
  A percentage that lies exactly between two integers is \<open>d / 2\<close> for an odd \<open>d\<close>, and
  the quotient of the counts is then \<open>d / 200\<close>. \<open>rounds_up_at d\<close> is the check, by
  computation, that the source takes that quotient to \<open>(d + 1) / 2\<close>, and
  \<open>tie_numerators\<close> lists the odd \<open>d\<close> that at most 20 answers can produce.
\<close>

definition rounds_up_at :: "nat \<Rightarrow> bool" where
  "rounds_up_at d = (Math_round (fl64 (fl64 (of_nat d / 200) * 100)) = (int d + 1) div 2)"

definition tie_numerators :: "nat list" where
  "tie_numerators =
     concat (map (\<lambda>g. map (\<lambda>m. g * m) [1, 3, 5, 7, 9, 11, 13, 15, 17, 19]) [1, 5, 25])"

chapter \<open>Properties\<close>

section \<open>Evaluation of the string functions\<close>


section \<open>The validator splits the text into its tokens\<close>

lemma tokens_Nil [simp]: "tokens [] = []"
  by (simp add: tokens.simps)













section \<open>The rounding of binary64\<close>

text \<open>
  \<open>ilog2\<close> is the binary exponent of a positive rational, so \<open>fl64\<close> keeps 53
  significant bits, and its relative error is at most \<open>2\<^sup>-\<^sup>5\<^sup>3\<close>.
\<close>

lemma round_half_even_err: "\<bar>of_int (round_half_even x) - x\<bar> \<le> 1 / 2"
proof -
  have "of_int \<lfloor>x\<rfloor> \<le> x" "x < of_int \<lfloor>x\<rfloor> + 1" by linarith+
  then show ?thesis by (auto simp: round_half_even_def Let_def)
qed

lemma round_half_even_nonneg: "0 \<le> x \<Longrightarrow> 0 \<le> round_half_even x"
proof -
  assume "0 \<le> x"
  then have "0 \<le> \<lfloor>x\<rfloor>" by simp
  then show ?thesis by (auto simp: round_half_even_def Let_def)
qed

lemma ilog2_le:
  assumes "0 < q"
  shows "2 powi (ilog2 q) \<le> q"
proof (cases "1 \<le> q")
  case True
  define n where "n = \<lfloor>q\<rfloor>"
  have n: "0 < n" using True by (simp add: n_def)
  have b: "1 \<le> bitlen n" using n by (simp add: bitlen_alt_def)
  have "(2::int) ^ nat (bitlen n - 1) \<le> n" using bitlen_bounds [OF n] by simp
  then have "(of_int ((2::int) ^ nat (bitlen n - 1)) :: rat) \<le> of_int n"
    by (simp only: of_int_le_iff)
  also have "\<dots> \<le> q" by (simp add: n_def)
  finally have "(2::rat) ^ nat (bitlen n - 1) \<le> q" by simp
  moreover have "(2::rat) powi (bitlen n - 1) = 2 ^ nat (bitlen n - 1)"
    using b by (simp add: power_int_def)
  ultimately show ?thesis using True by (simp add: ilog2_def n_def)
next
  case False
  define m where "m = \<lceil>1 / q\<rceil>"
  define b where "b = bitlen (m - 1)"
  have "1 < 1 / q" using False assms by simp
  then have m: "0 < m - 1" unfolding m_def by linarith
  have b0: "0 \<le> b" by (simp add: b_def bitlen_nonneg)
  have "m - 1 < 2 ^ nat b" using bitlen_bounds [OF m] by (simp add: b_def)
  then have "m \<le> 2 ^ nat b" by simp
  then have "(of_int m :: rat) \<le> of_int (2 ^ nat b)" by (simp only: of_int_le_iff)
  then have "(of_int m :: rat) \<le> 2 ^ nat b" by simp
  moreover have "1 / q \<le> of_int m" by (simp add: m_def)
  ultimately have "1 / q \<le> 2 ^ nat b" by linarith
  then have "1 / 2 ^ nat b \<le> q" using assms
    by (simp add: field_simps)
  moreover have "(2::rat) powi (- b) = 1 / 2 ^ nat b"
    using b0 by (simp add: power_int_def field_simps)
  ultimately show ?thesis using False by (simp add: ilog2_def m_def b_def)
qed

lemma fl64_err: "\<bar>fl64 q - q\<bar> \<le> \<bar>q\<bar> / 2 ^ 53"
proof (cases "q = 0")
  case True
  then show ?thesis by (simp add: fl64_def)
next
  case False
  define e where "e = ilog2 \<bar>q\<bar>"
  define u :: rat where "u = 2 powi (e - 52)"
  have u: "0 < u" by (simp add: u_def)
  have fl: "fl64 q = of_int (round_half_even (q / u)) * u"
    using False by (simp add: fl64_def Let_def e_def u_def)
  have "fl64 q - q = (of_int (round_half_even (q / u)) - q / u) * u"
    using u by (simp add: fl field_simps)
  then have "\<bar>fl64 q - q\<bar> = \<bar>of_int (round_half_even (q / u)) - q / u\<bar> * u"
    using u by (simp add: abs_mult)
  also have "\<dots> \<le> 1 / 2 * u"
    using round_half_even_err [of "q / u"] u by (intro mult_right_mono) simp_all
  also have "1 / 2 * u = 2 powi e / 2 ^ 53"
    by (simp add: u_def power_int_diff)
  also have "\<dots> \<le> \<bar>q\<bar> / 2 ^ 53"
    using ilog2_le [of "\<bar>q\<bar>"] False by (simp add: e_def divide_right_mono)
  finally show ?thesis .
qed

lemma fl64_nonneg: "0 \<le> q \<Longrightarrow> 0 \<le> fl64 q"
proof -
  assume q: "0 \<le> q"
  have "0 \<le> round_half_even (q / 2 powi (ilog2 \<bar>q\<bar> - 52))"
    using q by (intro round_half_even_nonneg) simp
  then show ?thesis by (simp add: fl64_def Let_def)
qed

lemma ilog2_less:
  assumes "0 < q"
  shows "q < 2 powi (ilog2 q + 1)"
proof (cases "1 \<le> q")
  case True
  define n where "n = \<lfloor>q\<rfloor>"
  have n: "0 < n" using True by (simp add: n_def)
  have b: "0 \<le> bitlen n" by (rule bitlen_nonneg)
  have "n < 2 ^ nat (bitlen n)" using bitlen_bounds [OF n] by simp
  then have "n + 1 \<le> 2 ^ nat (bitlen n)" by simp
  then have "(of_int (n + 1) :: rat) \<le> of_int (2 ^ nat (bitlen n))"
    by (simp only: of_int_le_iff)
  moreover have "q < of_int (n + 1)" unfolding n_def by linarith
  ultimately have "q < 2 ^ nat (bitlen n)" by simp
  moreover have "(2::rat) powi (bitlen n) = 2 ^ nat (bitlen n)"
    using b by (simp add: power_int_def)
  ultimately show ?thesis using True by (simp add: ilog2_def n_def)
next
  case False
  define m where "m = \<lceil>1 / q\<rceil>"
  define b where "b = bitlen (m - 1)"
  have "1 < 1 / q" using False assms by simp
  then have m: "0 < m - 1" unfolding m_def by linarith
  have b1: "1 \<le> b" using m by (simp add: b_def bitlen_alt_def)
  have "2 ^ nat (b - 1) \<le> m - 1" using bitlen_bounds [OF m] by (simp add: b_def)
  then have "(of_int (2 ^ nat (b - 1)) :: rat) \<le> of_int (m - 1)" by (simp only: of_int_le_iff)
  moreover have "of_int (m - 1) < 1 / q" unfolding m_def by linarith
  ultimately have "2 ^ nat (b - 1) < 1 / q" by simp
  then have "q < 1 / 2 ^ nat (b - 1)" using assms by (simp add: field_simps)
  moreover have "(2::rat) powi (- b + 1) = 1 / 2 ^ nat (b - 1)"
  proof -
    have "(2::rat) powi (- b + 1) = 2 powi (- (b - 1))" by simp
    also have "\<dots> = inverse (2 powi (b - 1))" by (rule power_int_minus)
    also have "(2::rat) powi (b - 1) = 2 ^ nat (b - 1)"
      using b1 by (simp add: power_int_nonneg_exp)
    finally show ?thesis by (simp add: field_simps)
  qed
  ultimately show ?thesis using False by (simp add: ilog2_def m_def b_def)
qed

text \<open>
  An integer of magnitude up to \<open>2\<^sup>5\<^sup>3\<close> is a binary64 value, so adding 1 to an integer
  from \<open>-2\<^sup>5\<^sup>3\<close> to \<open>2\<^sup>5\<^sup>3 - 1\<close> is exact.
\<close>

lemma round_half_even_of_int: "round_half_even (of_int k) = k"
  by (simp add: round_half_even_def Let_def)

lemma fl64_of_int:
  assumes "\<bar>n\<bar> \<le> 2 ^ 53"
  shows "fl64 (of_int n) = of_int n"
proof (cases "n = 0")
  case True
  then show ?thesis by (simp add: fl64_def)
next
  case False
  define q :: rat where "q = of_int n"
  define e where "e = ilog2 \<bar>q\<bar>"
  have q0: "0 < \<bar>q\<bar>" using False by (simp add: q_def)
  have qle: "\<bar>q\<bar> \<le> 2 ^ 53" using assms unfolding q_def
    by (metis of_int_abs of_int_le_iff of_int_numeral of_int_power)
  have "2 powi e \<le> \<bar>q\<bar>" unfolding e_def using q0 by (rule ilog2_le)
  then have le: "(2::rat) powi e \<le> 2 ^ 53" using qle by simp
  have e53: "e \<le> 53"
  proof (rule ccontr)
    assume "\<not> e \<le> 53"
    then have "54 \<le> e" by simp
    then have "(2::rat) powi 54 \<le> 2 powi e" by (intro power_int_increasing) simp_all
    then show False using le by simp
  qed
  show ?thesis
  proof (cases "e = 53")
    case True
    have "\<bar>q\<bar> = 2 ^ 53" using \<open>2 powi e \<le> \<bar>q\<bar>\<close> qle True by simp
    then have "q = 2 ^ 53 \<or> q = - (2 ^ 53)" by linarith
    then show ?thesis unfolding q_def [symmetric]
      using True e_def q0 by (auto simp: fl64_def Let_def round_half_even_def)
  next
    case ne: False
    then have e52: "e \<le> 52" using e53 by simp
    define k where "k = nat (52 - e)"
    have ulp: "(2::rat) powi (e - 52) = 1 / 2 ^ k"
      using e52 by (simp add: k_def power_int_def divide_simps)
    have "q / 2 powi (e - 52) = of_int (n * 2 ^ k)" by (simp add: ulp q_def)
    then have "round_half_even (q / 2 powi (e - 52)) = n * 2 ^ k"
      by (simp only: round_half_even_of_int)
    then show ?thesis
      using False unfolding q_def [symmetric]
      by (simp add: fl64_def Let_def e_def [symmetric] ulp) (simp add: q_def)
  qed
qed

lemma plus_1_integer:
  assumes "- (2 ^ 53) \<le> n" and "n < 2 ^ 53"
  shows "plus_1 (Finite (of_int n)) = Finite (of_int (n + 1))"
proof -
  have "fl64 (of_int (n + 1)) = of_int (n + 1)"
    using assms by (intro fl64_of_int) simp
  then show ?thesis by (simp add: plus_1_def add.commute)
qed

section \<open>Rate limiter\<close>

lemma Get_usage:
  "Get (usage d c) (js ''date'') = Some (JString d)"
  "Get (usage d c) (js ''count'') = Some c"
  by (simp_all add: Get_def usage_def js_def)

lemma written_count:
  "written today (PNumber (Finite q)) = Parsed (usage today (JNumber (Finite q)))"
  "written today (PString t) = Parsed (usage today (JString t))"
  by (simp_all add: written_def reread_def usage_def)

lemma ToPrimitive_count:
  "ToPrimitive N None = Some PUndefined"
  "ToPrimitive N (Some (JNumber x)) = Some (PNumber x)"
  "ToPrimitive N (Some (JString t)) = Some (PString t)"
  by (simp_all add: ToPrimitive_def)

lemma those_None_iff: "those xs = None \<longleftrightarrow> None \<in> set xs"
  by (induction xs) (auto split: option.splits)

lemma ToString_None_iff: "ToString N v = None \<longleftrightarrow> hidesToString v"
proof (induction v)
  case (JArray xs)
  have "ToString N (JArray xs) = None
          \<longleftrightarrow> (\<exists>x \<in> set xs. (if x = JNull then Some [] else ToString N x) = None)"
    unfolding ToString.simps map_option_is_None those_None_iff set_map image_iff
    by (rule bex_cong) auto
  also have "\<dots> \<longleftrightarrow> (\<exists>x \<in> set xs. x \<noteq> JNull \<and> ToString N x = None)"
    by (rule bex_cong) auto
  also have "\<dots> \<longleftrightarrow> (\<exists>x \<in> set xs. hidesToString x)"
  proof (rule bex_cong)
    fix x assume "x \<in> set xs"
    then show "x \<noteq> JNull \<and> ToString N x = None \<longleftrightarrow> hidesToString x"
      using JArray by (cases "x = JNull") simp_all
  qed simp
  finally show ?case by (simp add: list_ex_iff)
qed simp_all

lemma ToPrimitive_None_iff:
  "ToPrimitive N c = None \<longleftrightarrow> (\<exists>v. c = Some v \<and> hidesToString v)"
proof (cases c)
  case None
  then show ?thesis by (simp add: ToPrimitive_def)
next
  case (Some v)
  then show ?thesis using ToString_None_iff [of N v]
    by (cases v) (simp_all add: ToPrimitive_def)
qed

lemma atLeast100_count:
  "atLeast100 S (PNumber x) = greaterEqual x 100"
  "atLeast100 S (PString t) = greaterEqual (S t) 100"
  by (simp_all add: atLeast100_def ToNumber_def)

lemma plusOne_count:
  "plusOne S (PNumber x) = PNumber (plus_1 x)"
  "plusOne S (PString t) = PString (t @ js ''1'')"
  by (simp_all add: plusOne_def ToNumber_def)

lemma checkRateLimit_same_day:
  assumes "Get v (js ''date'') = Some (JString today)"
  shows "checkRateLimit S N today (Some (Parsed v))
           = (case ToPrimitive N (Get v (js ''count'')) of
                None \<Rightarrow> (Inl TypeError, Some (Parsed v))
              | Some p \<Rightarrow>
                  if atLeast100 S p then (Inr False, Some (Parsed v))
                  else (Inr True, Some (written today (plusOne S p))))"
proof -
  have "v \<noteq> JNull" using assms by (auto simp: Get_def)
  then show ?thesis using assms by (simp add: checkRateLimit_def Let_def)
qed

lemma first_call_of_day:
  "stored = None
     \<or> (\<exists>v. stored = Some (Parsed v) \<and> v \<noteq> JNull \<and> Get v (js ''date'') \<noteq> Some (JString today))
   \<Longrightarrow> checkRateLimit S N today stored
         = (Inr True, Some (Parsed (usage today (JNumber (Finite 1)))))"
  by (auto simp: checkRateLimit_def Let_def written_count)

lemma checkRateLimit_throws:
  "(\<exists>e. fst (checkRateLimit S N today stored) = Inl e)
     \<longleftrightarrow> stored = Some Unparsable \<or> stored = Some (Parsed JNull)
         \<or> (\<exists>v c. stored = Some (Parsed v) \<and> Get v (js ''date'') = Some (JString today)
                \<and> Get v (js ''count'') = Some c \<and> hidesToString c)"
proof (cases stored)
  case None
  then show ?thesis by (simp add: checkRateLimit_def)
next
  case (Some item)
  show ?thesis
  proof (cases item)
    case Unparsable
    then show ?thesis using Some by (simp add: checkRateLimit_def)
  next
    case (Parsed v)
    show ?thesis
    proof (cases "Get v (js ''date'') = Some (JString today)")
      case True
      then have "v \<noteq> JNull" by (auto simp: Get_def)
      have "(\<exists>e. fst (checkRateLimit S N today (Some (Parsed v))) = Inl e)
              \<longleftrightarrow> ToPrimitive N (Get v (js ''count'')) = None"
        by (simp add: checkRateLimit_same_day [OF True] split: option.splits)
      also have "\<dots> \<longleftrightarrow> (\<exists>c. Get v (js ''count'') = Some c \<and> hidesToString c)"
        by (rule ToPrimitive_None_iff)
      finally show ?thesis using Some Parsed True \<open>v \<noteq> JNull\<close> by simp
    next
      case False
      then show ?thesis using Some Parsed by (auto simp: checkRateLimit_def Let_def)
    qed
  qed
qed

lemma denied_unchanged:
  "fst (checkRateLimit S N today stored) = Inr False
   \<Longrightarrow> checkRateLimit S N today stored = (Inr False, stored)"
  by (auto simp: checkRateLimit_def Let_def split: option.splits stored.splits if_splits)

lemma after_calls_same_day:
  "1 \<le> c \<Longrightarrow> c \<le> 100 \<Longrightarrow>
   after_calls S N today n (Some (Parsed (usage today (JNumber (Finite (of_int c))))))
     = Some (Parsed (usage today (JNumber (Finite (of_int (min (c + int n) 100))))))"
proof (induction n arbitrary: c)
  case 0
  then show ?case by simp
next
  case (Suc n)
  have call: "checkRateLimit S N today (Some (Parsed (usage today (JNumber (Finite (of_int c))))))
         = (if 100 \<le> c then (Inr False, Some (Parsed (usage today (JNumber (Finite (of_int c))))))
            else (Inr True, Some (Parsed (usage today (JNumber (Finite (of_int (c + 1))))))))"
  proof -
    have "plus_1 (Finite (of_int c)) = Finite (of_int (c + 1))"
      using Suc.prems by (intro plus_1_integer) simp_all
    moreover have "greaterEqual (Finite (of_int c)) 100 \<longleftrightarrow> 100 \<le> c"
      by (simp add: greaterEqual_def)
    ultimately show ?thesis
      by (simp add: checkRateLimit_same_day Get_usage ToPrimitive_count atLeast100_count
            plusOne_count written_count del: of_int_add)
  qed
  show ?case
  proof (cases "c = 100")
    case True
    then show ?thesis using Suc.IH [of 100] call by simp
  next
    case False
    with Suc.prems have "c + 1 \<le> 100" "1 \<le> c + 1" by simp_all
    then show ?thesis using Suc.IH [of "c + 1"] False Suc.prems call
      by (simp add: add.assoc del: of_int_add)
  qed
qed

text \<open>
  Claim C7, as amended. For every persisted state of the rate limiter. With no stored item,
  or with an item that parses to a value other than \<^verbatim>\<open>null\<close> whose \<^verbatim>\<open>date\<close> is not
  the string of today, the call succeeds and resets the count to 1. With an item of today
  whose count is a finite number below 100 the call succeeds and stores the binary64 sum
  of the count and 1, which is the count plus one for an integer count from \<open>-2\<^sup>5\<^sup>3\<close> on.
  With an item of today whose count is a number of 100 or more the call is denied and the
  item stays as it is. The call throws, and leaves the item as it is, exactly on a text
  that \<^verbatim>\<open>JSON.parse\<close> rejects, on the text \<^verbatim>\<open>null\<close>, and on an item of today whose
  count has no primitive value (an object with a property \<^verbatim>\<open>toString\<close>, or an array
  that holds one), where the claim has it succeed or be denied. Any other count of today goes through the conversions of
  \<^verbatim>\<open>>=\<close> and \<^verbatim>\<open>+\<close>: a string count is compared as the number it denotes and gets
  the text of 1 appended.
\<close>

theorem checkRateLimit_cases:
  "(stored = None
      \<or> (\<exists>w. stored = Some (Parsed w) \<and> w \<noteq> JNull \<and> Get w (js ''date'') \<noteq> Some (JString today))
     \<longrightarrow> checkRateLimit S N today stored
          = (Inr True, Some (Parsed (usage today (JNumber (Finite 1))))))
   \<and> (Get v (js ''date'') = Some (JString today)
       \<and> Get v (js ''count'') = Some (JNumber (Finite c)) \<and> c < 100
     \<longrightarrow> checkRateLimit S N today (Some (Parsed v))
          = (Inr True, Some (Parsed (usage today (JNumber (Finite (fl64 (c + 1))))))))
   \<and> (- (2 ^ 53) \<le> n \<and> n < 2 ^ 53 \<longrightarrow> fl64 (of_int n + 1) = of_int n + 1)
   \<and> (Get v (js ''date'') = Some (JString today) \<and> Get v (js ''count'') = Some (JNumber x)
       \<and> (x = Infinity \<or> (\<exists>q. x = Finite q \<and> 100 \<le> q))
     \<longrightarrow> checkRateLimit S N today (Some (Parsed v)) = (Inr False, Some (Parsed v)))
   \<and> checkRateLimit S N today (Some Unparsable) = (Inl SyntaxError, Some Unparsable)
   \<and> checkRateLimit S N today (Some (Parsed JNull)) = (Inl TypeError, Some (Parsed JNull))
   \<and> (Get v (js ''date'') = Some (JString today)
       \<and> Get v (js ''count'') = Some u \<and> hidesToString u
     \<longrightarrow> checkRateLimit S N today (Some (Parsed v)) = (Inl TypeError, Some (Parsed v)))
   \<and> ((\<exists>e. fst (checkRateLimit S N today stored) = Inl e)
        \<longleftrightarrow> stored = Some Unparsable \<or> stored = Some (Parsed JNull)
            \<or> (\<exists>w u. stored = Some (Parsed w) \<and> Get w (js ''date'') = Some (JString today)
                     \<and> Get w (js ''count'') = Some u \<and> hidesToString u))
   \<and> (Get v (js ''date'') = Some (JString today) \<and> Get v (js ''count'') = Some (JString t)
     \<longrightarrow> checkRateLimit S N today (Some (Parsed v))
          = (if greaterEqual (S t) 100 then (Inr False, Some (Parsed v))
             else (Inr True, Some (Parsed (usage today (JString (t @ js ''1'')))))))
   \<and> (Get v (js ''date'') = Some (JString today)
     \<longrightarrow> checkRateLimit S N today (Some (Parsed v))
          = (case ToPrimitive N (Get v (js ''count'')) of
               None \<Rightarrow> (Inl TypeError, Some (Parsed v))
             | Some p \<Rightarrow>
                 if atLeast100 S p then (Inr False, Some (Parsed v))
                 else (Inr True, Some (written today (plusOne S p)))))"
proof -
  have exact: "fl64 (of_int n + 1) = of_int n + 1" if "- (2 ^ 53) \<le> n" "n < 2 ^ 53"
  proof -
    have "fl64 (of_int (n + 1)) = of_int (n + 1)" using that by (intro fl64_of_int) simp
    then show ?thesis by simp
  qed
  have below: "checkRateLimit S N today (Some (Parsed v))
          = (Inr True, Some (Parsed (usage today (JNumber (Finite (fl64 (c + 1)))))))"
    if "Get v (js ''date'') = Some (JString today)"
      "Get v (js ''count'') = Some (JNumber (Finite c))" "c < 100"
    using that
    by (simp add: checkRateLimit_same_day ToPrimitive_count atLeast100_count plusOne_count
          written_count greaterEqual_def plus_1_def)
  have above: "checkRateLimit S N today (Some (Parsed v)) = (Inr False, Some (Parsed v))"
    if "Get v (js ''date'') = Some (JString today)" "Get v (js ''count'') = Some (JNumber x)"
      "x = Infinity \<or> (\<exists>q. x = Finite q \<and> 100 \<le> q)"
    using that
    by (auto simp: checkRateLimit_same_day ToPrimitive_count atLeast100_count greaterEqual_def)
  have text_count: "checkRateLimit S N today (Some (Parsed v))
          = (if greaterEqual (S t) 100 then (Inr False, Some (Parsed v))
             else (Inr True, Some (Parsed (usage today (JString (t @ js ''1''))))))"
    if "Get v (js ''date'') = Some (JString today)" "Get v (js ''count'') = Some (JString t)"
    using that
    by (simp add: checkRateLimit_same_day ToPrimitive_count atLeast100_count plusOne_count
          written_count)
  have hidden: "checkRateLimit S N today (Some (Parsed v)) = (Inl TypeError, Some (Parsed v))"
    if "Get v (js ''date'') = Some (JString today)" "Get v (js ''count'') = Some u"
      "hidesToString u"
  proof -
    have "ToPrimitive N (Get v (js ''count'')) = None"
      using that(2,3) by (simp add: ToPrimitive_None_iff)
    then show ?thesis using that(1) by (simp add: checkRateLimit_same_day)
  qed
  have throws: "checkRateLimit S N today (Some Unparsable) = (Inl SyntaxError, Some Unparsable)"
    "checkRateLimit S N today (Some (Parsed JNull)) = (Inl TypeError, Some (Parsed JNull))"
    by (simp_all add: checkRateLimit_def)
  show ?thesis
    using first_call_of_day [of stored today S N] below exact above throws hidden
      checkRateLimit_throws [of S N today stored] text_count
      checkRateLimit_same_day [of v today S N]
    by blast
qed

theorem checkRateLimit_cases_witness:
  "checkRateLimit sampleToNumber sampleToString sampleDay None
     = (Inr True, Some (Parsed (usage sampleDay (JNumber (Finite 1)))))
   \<and> checkRateLimit sampleToNumber sampleToString sampleDay
        (Some (Parsed (usage (js ''Sun Nov 01 2026'') (JNumber (Finite 100)))))
     = (Inr True, Some (Parsed (usage sampleDay (JNumber (Finite 1)))))
   \<and> checkRateLimit sampleToNumber sampleToString sampleDay
        (Some (Parsed (usage sampleDay (JNumber (Finite 99)))))
     = (Inr True, Some (Parsed (usage sampleDay (JNumber (Finite 100)))))
   \<and> checkRateLimit sampleToNumber sampleToString sampleDay
        (Some (Parsed (usage sampleDay (JNumber (Finite 100)))))
     = (Inr False, Some (Parsed (usage sampleDay (JNumber (Finite 100)))))
   \<and> checkRateLimit sampleToNumber sampleToString sampleDay
        (Some (Parsed (usage sampleDay (JString (js ''100'')))))
     = (Inr False, Some (Parsed (usage sampleDay (JString (js ''100'')))))
   \<and> checkRateLimit sampleToNumber sampleToString sampleDay
        (Some (Parsed (usage sampleDay (JObject [(js ''toString'', JNull)]))))
     = (Inl TypeError, Some (Parsed (usage sampleDay (JObject [(js ''toString'', JNull)]))))
   \<and> checkRateLimit sampleToNumber sampleToString sampleDay
        (Some (Parsed (JObject [(js ''date'', JString sampleDay)])))
     = (Inr True, Some (Parsed (usage sampleDay JNull)))"
proof -
  let ?yesterday = "usage (js ''Sun Nov 01 2026'') (JNumber (Finite 100))"
  have other: "?yesterday \<noteq> JNull \<and> Get ?yesterday (js ''date'') \<noteq> Some (JString sampleDay)"
    unfolding Get_usage by (simp add: usage_def sampleDay_def js_def)
  have today: "Get (JObject [(js ''date'', JString sampleDay)]) (js ''date'')
                 = Some (JString sampleDay)"
    by (simp add: Get_def)
  have missing: "Get (JObject [(js ''date'', JString sampleDay)]) (js ''count'') = None"
    by (simp add: Get_def js_def)
  have s100: "greaterEqual (sampleToNumber (js ''100'')) 100"
    by code_simp
  note T = checkRateLimit_cases [where S = sampleToNumber and N = sampleToString
             and today = sampleDay]
  have "checkRateLimit sampleToNumber sampleToString sampleDay None
     = (Inr True, Some (Parsed (usage sampleDay (JNumber (Finite 1)))))"
    using T [where stored = None] by simp
  moreover have "checkRateLimit sampleToNumber sampleToString sampleDay (Some (Parsed ?yesterday))
     = (Inr True, Some (Parsed (usage sampleDay (JNumber (Finite 1)))))"
    using T [where stored = "Some (Parsed ?yesterday)"] other by simp
  moreover have "checkRateLimit sampleToNumber sampleToString sampleDay
        (Some (Parsed (usage sampleDay (JNumber (Finite 99)))))
     = (Inr True, Some (Parsed (usage sampleDay (JNumber (Finite 100)))))"
    using T [where v = "usage sampleDay (JNumber (Finite 99))" and c = 99 and n = 99]
    by (simp add: Get_usage)
  moreover have "checkRateLimit sampleToNumber sampleToString sampleDay
        (Some (Parsed (usage sampleDay (JNumber (Finite 100)))))
     = (Inr False, Some (Parsed (usage sampleDay (JNumber (Finite 100)))))"
    using T [where v = "usage sampleDay (JNumber (Finite 100))" and x = "Finite 100"]
    by (simp add: Get_usage)
  moreover have "checkRateLimit sampleToNumber sampleToString sampleDay
        (Some (Parsed (usage sampleDay (JString (js ''100'')))))
     = (Inr False, Some (Parsed (usage sampleDay (JString (js ''100'')))))"
    using T [where v = "usage sampleDay (JString (js ''100''))" and t = "js ''100''"] s100
    by (simp add: Get_usage)
  moreover have "checkRateLimit sampleToNumber sampleToString sampleDay
        (Some (Parsed (usage sampleDay (JObject [(js ''toString'', JNull)]))))
     = (Inl TypeError, Some (Parsed (usage sampleDay (JObject [(js ''toString'', JNull)]))))"
    using T [where v = "usage sampleDay (JObject [(js ''toString'', JNull)])"
               and u = "JObject [(js ''toString'', JNull)]"]
    by (simp add: Get_usage)
  moreover have "checkRateLimit sampleToNumber sampleToString sampleDay
        (Some (Parsed (JObject [(js ''date'', JString sampleDay)])))
     = (Inr True, Some (Parsed (usage sampleDay JNull)))"
    using T [where v = "JObject [(js ''date'', JString sampleDay)]"] today missing
    by (simp add: atLeast100_def plusOne_def ToPrimitive_def ToNumber_def greaterEqual_def
          plus_1_def written_def reread_def usage_def)
  ultimately show ?thesis by blast
qed

text \<open>
  The claim as stated fails on a corrupt item. On a text that is not JSON
  \<^verbatim>\<open>JSON.parse\<close> throws, and on the text \<^verbatim>\<open>null\<close> the destructuring does; nothing in
  \<^verbatim>\<open>checkRateLimit\<close> or its caller catches either, and the count is not reset. On an
  item of today whose count is the string \<^verbatim>\<open>"5"\<close> the call succeeds and stores the
  count \<^verbatim>\<open>"51"\<close>, and a count of \<open>-2\<^sup>5\<^sup>4\<close> stays what it is.
\<close>

theorem checkRateLimit_corrupt_counterexample:
  "checkRateLimit sampleToNumber sampleToString sampleDay (Some Unparsable)
     = (Inl SyntaxError, Some Unparsable)
   \<and> checkRateLimit sampleToNumber sampleToString sampleDay (Some (Parsed JNull))
     = (Inl TypeError, Some (Parsed JNull))
   \<and> checkRateLimit sampleToNumber sampleToString sampleDay
        (Some (Parsed (usage sampleDay (JString (js ''5'')))))
     = (Inr True, Some (Parsed (usage sampleDay (JString (js ''51'')))))
   \<and> checkRateLimit sampleToNumber sampleToString sampleDay
        (Some (Parsed (usage sampleDay (JNumber (Finite (- (2 ^ 54)))))))
     = (Inr True, Some (Parsed (usage sampleDay (JNumber (Finite (- (2 ^ 54)))))))"
  by code_simp

section \<open>Fallback questions\<close>

lemma length_fallbackQuestions: "length (fallbackQuestions desc) = 10"
  by (simp add: fallbackQuestions_def)

lemma getFallbackQuestion_defined:
  "getFallbackQuestion desc n = Some (fallbackQuestions desc ! min n 9)"
  by (simp add: getFallbackQuestion_def Let_def length_fallbackQuestions)

text \<open>
  Claim C8, as amended. For every project description and every count,
  \<^verbatim>\<open>getFallbackQuestion\<close> returns the entry at the position of the count, clamped to
  the last position 9, of an ordered list of ten questions; the index is in range, so the
  result is never undefined; at count 0 it is the first entry and at count 999 the tenth.
  The entries after the first are the same for every description; the first entry has a
  fixed number, category, icon and type, and its text quotes the first 50 code units of
  the description.
\<close>

theorem getFallbackQuestion_spec:
  \<open>length (fallbackQuestions desc) = 10
   \<and> min n 9 < length (fallbackQuestions desc)
   \<and> getFallbackQuestion desc n = Some (fallbackQuestions desc ! min n 9)
   \<and> getFallbackQuestion desc 0 = Some (hd (fallbackQuestions desc))
   \<and> getFallbackQuestion desc 999 = Some (last (fallbackQuestions desc))
   \<and> tl (fallbackQuestions desc) = tl (fallbackQuestions desc')
   \<and> hd (fallbackQuestions desc)
       = \<lparr>qid = 1, category = js ''Project Vision'',
          question = js ''What specific problem does "'' @ take 50 desc @ js ''..." solve?'',
          icon = [0xD83C, 0xDFAF], type = standard\<rparr>
   \<and> map qid (fallbackQuestions desc) = [1, 2, 3, 4, 5, 6, 7, 8, 9, 10]
   \<and> map category (fallbackQuestions desc)
       = [js ''Project Vision'', js ''Target Audience'', js ''Timeline'', js ''Budget'',
          js ''Success Metrics'', js ''Key Features'', js ''Resources'', js ''Dependencies'',
          js ''Risks'', js ''Stakeholders'']\<close>
proof -
  have "getFallbackQuestion desc 0 = Some (hd (fallbackQuestions desc))"
    by (simp add: getFallbackQuestion_def Let_def fallbackQuestions_def)
  moreover have "getFallbackQuestion desc 999 = Some (last (fallbackQuestions desc))"
    by (simp add: getFallbackQuestion_def Let_def fallbackQuestions_def)
  moreover have "tl (fallbackQuestions desc) = tl (fallbackQuestions desc')"
    by (simp add: fallbackQuestions_def)
  ultimately show ?thesis
    by (simp add: getFallbackQuestion_defined length_fallbackQuestions)
       (simp add: fallbackQuestions_def)
qed

text \<open>
  The claim as stated has one fixed list; the first entry differs between two
  descriptions.
\<close>

theorem getFallbackQuestion_description_counterexample:
  "getFallbackQuestion (js ''build a mobile app for dog walkers'') 0
     \<noteq> getFallbackQuestion (js ''plan a wedding for 200 guests'') 0"
  by (simp add: getFallbackQuestion_def Let_def fallbackQuestions_def js_def)

section \<open>Evaluation of the sample inputs\<close>

lemmas sample_eval = sampleParse_def sampleData_def continueReply_def rejectReply_def
  proseReply_def brokenReply_def sampleDescription_def sampleDay_def

lemma sampleDescription_valid: "valid (validateInput sampleDescription)"
  by code_simp

lemma sampleDescription_trim: "trim sampleDescription \<noteq> []"
  by code_simp

section \<open>Oracle client\<close>

text \<open>
  \<^verbatim>\<open>getApiKey\<close> throws when no key is configured and when the previous call was less
  than 1000 ms ago.
\<close>

lemma getApiKey_throws:
  "isl (fst (getApiKey key lastCall now))
     = (key = None \<or> key = Some [] \<or> (\<exists>t. lastCall = Some t \<and> now - t < 1000))"
  by (auto simp: getApiKey_def split: option.splits)

text \<open>
  The regular expression finds no match exactly when the text has no opening brace with
  a closing brace somewhere after it.
\<close>

lemma jsonMatch_None_iff:
  "jsonMatch text = None
     \<longleftrightarrow> \<not> (\<exists>i j. i < j \<and> j < length text \<and> text ! i = 0x7B \<and> text ! j = 0x7D)"
proof -
  define p where "p = takeWhile (\<lambda>c. c \<noteq> 0x7B) text"
  define r where "r = dropWhile (\<lambda>c. c \<noteq> 0x7B) text"
  have decomp: "text = p @ r" by (simp add: p_def r_def)
  have p_no: "text ! i \<noteq> 0x7B" if "i < length p" for i
  proof -
    have "p ! i \<in> set p" using that by simp
    then have "p ! i \<noteq> 0x7B" unfolding p_def by (auto dest: set_takeWhileD)
    moreover have "text ! i = p ! i" using that by (subst decomp) (simp add: nth_append)
    ultimately show ?thesis by simp
  qed
  show ?thesis
  proof (cases r)
    case Nil
    then have "length p = length text" using decomp by simp
    then have "\<And>i. i < length text \<Longrightarrow> text ! i \<noteq> 0x7B" using p_no by simp
    then have "\<not> (\<exists>i j. i < j \<and> j < length text \<and> text ! i = 0x7B \<and> text ! j = 0x7D)"
      by (meson less_trans)
    moreover have "jsonMatch text = None"
      unfolding jsonMatch_def r_def [symmetric] Nil by simp
    ultimately show ?thesis by simp
  next
    case (Cons b body)
    have b: "b = 0x7B"
      using hd_dropWhile [of "\<lambda>c. c \<noteq> 0x7B" "text"] Cons unfolding r_def by auto
    have jm: "jsonMatch text = None \<longleftrightarrow> 0x7D \<notin> set body"
      unfolding jsonMatch_def r_def [symmetric] Cons by simp
    have len: "length text = length p + 1 + length body" using decomp Cons by simp
    have at_p: "text ! length p = 0x7B"
      using b Cons by (subst decomp) simp
    have after: "text ! (length p + 1 + k) = body ! k" for k
      using Cons by (subst decomp) (simp add: nth_append)
    show ?thesis
    proof
      assume "jsonMatch text = None"
      with jm have nb: "0x7D \<notin> set body" by simp
      show "\<not> (\<exists>i j. i < j \<and> j < length text \<and> text ! i = 0x7B \<and> text ! j = 0x7D)"
      proof
        assume "\<exists>i j. i < j \<and> j < length text \<and> text ! i = 0x7B \<and> text ! j = 0x7D"
        then obtain i j where ij: "i < j" "j < length text" "text ! i = 0x7B" "text ! j = 0x7D"
          by blast
        have "\<not> i < length p" using p_no ij(3) by blast
        then have "length p < j" using ij(1) by simp
        then obtain k where k: "j = length p + 1 + k" using less_iff_Suc_add by auto
        then have "k < length body" using ij(2) len by simp
        moreover have "body ! k = 0x7D" using after [of k] k ij(4) by simp
        ultimately have "0x7D \<in> set body" using nth_mem by fastforce
        with nb show False by simp
      qed
    next
      assume no: "\<not> (\<exists>i j. i < j \<and> j < length text \<and> text ! i = 0x7B \<and> text ! j = 0x7D)"
      have "0x7D \<notin> set body"
      proof
        assume "0x7D \<in> set body"
        then obtain k where k: "k < length body" "body ! k = 0x7D"
          by (auto simp: in_set_conv_nth)
        have "length p < length p + 1 + k" by simp
        moreover have "length p + 1 + k < length text" using k len by simp
        moreover have "text ! (length p + 1 + k) = 0x7D" using after [of k] k by simp
        ultimately show False using no at_p by blast
      qed
      with jm show "jsonMatch text = None" by simp
    qed
  qed
qed

text \<open>
  Claim C5, as amended. \<^verbatim>\<open>generateNextQuestion\<close> returns \<^verbatim>\<open>null\<close> exactly when
  \<^verbatim>\<open>getApiKey\<close> refuses (no key is configured, or the previous call was less than
  1000 ms ago), the invocation of the service throws, the response has no text, the text
  has no brace-delimited substring, or the extracted substring fails to parse. A reply
  that parses to an object whose \<^verbatim>\<open>shouldContinue\<close> is false is returned as the stop
  decision, which is not \<^verbatim>\<open>null\<close>.
\<close>

theorem generateNextQuestion_outcomes:
  "(fst (generateNextQuestion JSON_parse key lastCall now desc qa resp) = None)
     = (key = None \<or> key = Some [] \<or> (\<exists>t. lastCall = Some t \<and> now - t < 1000)
        \<or> resp = GenerateThrows \<or> resp = Response None
        \<or> (\<exists>text. resp = Response (Some text) \<and> jsonMatch text = None)
        \<or> (\<exists>text matched. resp = Response (Some text) \<and> jsonMatch text = Some matched
              \<and> JSON_parse matched = None))
   \<and> (fst (getApiKey key lastCall now) = Inr k \<and> resp = Response (Some text)
        \<and> jsonMatch text = Some matched \<and> JSON_parse matched = Some data
        \<and> \<not> data_shouldContinue data
      \<longrightarrow> fst (generateNextQuestion JSON_parse key lastCall now desc qa resp) = Some Stop)"
proof -
  let ?refuses = "key = None \<or> key = Some [] \<or> (\<exists>t. lastCall = Some t \<and> now - t < 1000)"
  show ?thesis
  proof (cases "getApiKey key lastCall now")
    case (Pair r l)
    show ?thesis
    proof (cases r)
      case (Inl e)
      then have "?refuses" using Pair getApiKey_throws [of key lastCall now] by simp
      then show ?thesis using Pair Inl by (auto simp: generateNextQuestion_def)
    next
      case (Inr k')
      then have "\<not> ?refuses" using Pair getApiKey_throws [of key lastCall now] by simp
      then show ?thesis using Pair Inr
        by (auto simp: generateNextQuestion_def split: response.splits option.splits)
    qed
  qed
qed

theorem generateNextQuestion_outcomes_witness:
  "fst (generateNextQuestion sampleParse (Some (js ''key'')) None 0 sampleDescription []
          rejectReply) = Some Stop
   \<and> fst (generateNextQuestion sampleParse (Some (js ''key'')) None 0 sampleDescription []
          proseReply) = None
   \<and> fst (generateNextQuestion sampleParse (Some (js ''key'')) None 0 sampleDescription []
          brokenReply) = None
   \<and> fst (generateNextQuestion sampleParse (Some (js ''key'')) None 0 sampleDescription []
          continueReply) \<noteq> None"
  using generateNextQuestion_outcomes [of sampleParse "Some (js ''key'')" None 0
          sampleDescription "[]" rejectReply "js ''key''"
          "js ''{\"shouldContinue\": false}''" "js ''{\"shouldContinue\": false}''"
          "sampleData False"]
        generateNextQuestion_outcomes [of sampleParse "Some (js ''key'')" None 0
          sampleDescription "[]" proseReply]
        generateNextQuestion_outcomes [of sampleParse "Some (js ''key'')" None 0
          sampleDescription "[]" brokenReply]
        generateNextQuestion_outcomes [of sampleParse "Some (js ''key'')" None 0
          sampleDescription "[]" continueReply]
  by (simp add: sample_eval getApiKey_def jsonMatch_def js_def)

text \<open>
  The claim as stated has three causes only. Here the service is never reached, the reply
  it would give has a brace-delimited substring and that substring parses, and the result
  is \<^verbatim>\<open>null\<close> all the same: once with no key configured, once with a call 999 ms
  after the previous one.
\<close>

theorem generateNextQuestion_refusal_counterexample:
  \<open>fst (generateNextQuestion sampleParse None None 0 sampleDescription [] rejectReply) = None
   \<and> fst (generateNextQuestion sampleParse (Some (js ''key'')) (Some 0) 999
            sampleDescription [] rejectReply) = None
   \<and> rejectReply = Response (Some (js ''{"shouldContinue": false}''))
   \<and> jsonMatch (js ''{"shouldContinue": false}'') = Some (js ''{"shouldContinue": false}'')
   \<and> sampleParse (js ''{"shouldContinue": false}'') = Some (sampleData False)\<close>
  by (simp add: generateNextQuestion_def getApiKey_def rejectReply_def sampleParse_def
        jsonMatch_def js_def)

section \<open>Questioning controller\<close>

subsection \<open>An unusable reply\<close>

text \<open>
  When the client returns \<^verbatim>\<open>null\<close>, \<^verbatim>\<open>handleStartProject\<close> and
  \<^verbatim>\<open>handleAnswerSubmit\<close> append one fallback question and stay on the questioning page;
  \<^verbatim>\<open>skipQuestion\<close> appends nothing and moves to the summary.
\<close>

lemma handleStartProject_null:
  assumes "valid (validateInput (projectInput s))"
      and "fst (checkRateLimit StringToNumber NumberToString today (projectCount s)) = Inr True"
      and "fst (generateNextQuestion JSON_parse (apiKey s) (lastApiCall s) now
                  (projectInput s) [] resp) = None"
  shows "questions (handleStartProject JSON_parse StringToNumber NumberToString today now resp s)
           = [fallbackQuestions (projectInput s) ! 0]
         \<and> page (handleStartProject JSON_parse StringToNumber NumberToString
               today now resp s) = Questioning"
proof -
  obtain st where c: "checkRateLimit StringToNumber NumberToString
        today (projectCount s) = (Inr True, st)"
    using assms(2) by (cases "checkRateLimit StringToNumber NumberToString
          today (projectCount s)") auto
  obtain l where g: "generateNextQuestion JSON_parse (apiKey s) (lastApiCall s) now
                  (projectInput s) [] resp = (None, l)"
    using assms(3)
    by (cases "generateNextQuestion JSON_parse (apiKey s) (lastApiCall s) now
                  (projectInput s) [] resp") auto
  show ?thesis using assms(1) c g
    by (simp add: handleStartProject_def Let_def getFallbackQuestion_defined)
qed

lemma handleAnswerSubmit_null:
  assumes "trim (currentAnswer s) \<noteq> []"
      and "length (submitContext s) < 20"
      and "fst (generateNextQuestion JSON_parse (apiKey s) (lastApiCall s) now
                  (projectInput s) (submitContext s) resp) = None"
  shows "questions (handleAnswerSubmit JSON_parse now resp s)
           = questions s @ [fallbackQuestions (projectInput s) ! min (length (submitContext s)) 9]
         \<and> page (handleAnswerSubmit JSON_parse now resp s) = page s"
proof -
  obtain l where g: "generateNextQuestion JSON_parse (apiKey s) (lastApiCall s) now
                  (projectInput s) (submitContext s) resp = (None, l)"
    using assms(3)
    by (cases "generateNextQuestion JSON_parse (apiKey s) (lastApiCall s) now
                  (projectInput s) (submitContext s) resp") auto
  show ?thesis using assms(1,2) g
    by (simp add: handleAnswerSubmit_def Let_def getFallbackQuestion_defined)
qed

lemma skipQuestion_null:
  assumes "fst (generateNextQuestion JSON_parse (apiKey s) (lastApiCall s) now
                  (projectInput s) (skipContext s) resp) = None"
  shows "questions (skipQuestion JSON_parse now resp s) = questions s
         \<and> page (skipQuestion JSON_parse now resp s) = Summary"
proof -
  obtain l where g: "generateNextQuestion JSON_parse (apiKey s) (lastApiCall s) now
                  (projectInput s) (skipContext s) resp = (None, l)"
    using assms
    by (cases "generateNextQuestion JSON_parse (apiKey s) (lastApiCall s) now
                  (projectInput s) (skipContext s) resp") auto
  show ?thesis using g by (simp add: skipQuestion_def Let_def)
qed

text \<open>
  Claim C2, at the input where the code departs from it. A session is started and has
  one question; the user skips it and the service answers with prose that has no braces,
  so the client returns \<^verbatim>\<open>null\<close>. The session ends on the summary page with the
  question list as it was: no fallback question is appended. Submitting an answer in the
  same state with the same reply appends the second fallback question and stays on the
  questioning page.
\<close>

theorem skip_without_fallback:
  "page (run sampleParse sampleToNumber sampleToString fresh (start continueReply)) = Questioning
   \<and> length (questions (run sampleParse sampleToNumber sampleToString fresh
         (start continueReply))) = 1
   \<and> page (run sampleParse sampleToNumber sampleToString fresh
         (start continueReply @ [SkipQuestion 2000 proseReply]))
       = Summary
   \<and> questions (run sampleParse sampleToNumber sampleToString fresh
         (start continueReply @ [SkipQuestion 2000 proseReply]))
       = questions (run sampleParse sampleToNumber sampleToString fresh (start continueReply))
   \<and> page (run sampleParse sampleToNumber sampleToString fresh
         (start continueReply @ [AnswerChange (js ''two months''), AnswerSubmit 2000 proseReply]))
       = Questioning
   \<and> questions (run sampleParse sampleToNumber sampleToString fresh
         (start continueReply @ [AnswerChange (js ''two months''), AnswerSubmit 2000 proseReply]))
       = questions (run sampleParse sampleToNumber sampleToString fresh (start continueReply))
           @ [fallbackQuestions sampleDescription ! 1]"
  by code_simp

subsection \<open>A rejection\<close>




subsection \<open>Skipped questions\<close>

text \<open>
  After a skip the numbers lag behind the positions. A session is started with a question
  from the service and the user skips it; the service continues. The second question is
  appended at position 2 of the list and its number is 1: the client numbers a question
  by the count of answered questions in its context, plus one.
\<close>

lemma skipped_question_id:
  "map qid (questions (run sampleParse sampleToNumber sampleToString fresh
        (start continueReply @ skips 1))) = [1, 1]
   \<and> page (run sampleParse sampleToNumber sampleToString fresh
         (start continueReply @ skips 1)) = Questioning"
  by code_simp

text \<open>
  Claim C1, at the input where the code departs from it. A session is started and the
  user skips twenty times while the service continues: the list has 21 questions and the
  session is still on the questioning page. The test against 20 is on the count of
  answered questions, which skipping does not raise.
\<close>

theorem skipping_exceeds_20:
  "length (questions (run sampleParse sampleToNumber sampleToString fresh
        (start continueReply @ skips 20))) = 21
   \<and> page (run sampleParse sampleToNumber sampleToString fresh
         (start continueReply @ skips 20)) = Questioning"
  by code_simp

subsection \<open>What the test against 20 bounds\<close>

text \<open>
  The context that \<^verbatim>\<open>handleAnswerSubmit\<close> builds has one entry for every answered
  question up to the current one, so its length is the number of answers after the
  submission.
\<close>

lemma length_filter_enumerate:
  "length (filter (\<lambda>p. P (fst p)) (enumerate n xs)) = length (filter P [n..<n + length xs])"
proof -
  have "filter P (map fst (enumerate n xs)) = map fst (filter (P \<circ> fst) (enumerate n xs))"
    by (rule filter_map)
  then have "length (filter P (map fst (enumerate n xs)))
               = length (filter (P \<circ> fst) (enumerate n xs))"
    by (simp only: length_map)
  then show ?thesis by (simp add: comp_def)
qed

lemma length_submitContext:
  assumes "currentQuestionIndex s < length (questions s)"
      and "dom (answers s) \<subseteq> {..<currentQuestionIndex s}"
      and "[] \<notin> ran (answers s)"
      and "currentAnswer s \<noteq> []"
  shows "length (submitContext s) = card (dom (answers s)) + 1"
proof -
  let ?idx = "currentQuestionIndex s"
  let ?A = "\<lambda>i. if i = ?idx then currentAnswer s
                else (case answers s i of None \<Rightarrow> [] | Some a \<Rightarrow> a)"
  have len: "length (take (?idx + 1) (questions s)) = ?idx + 1" using assms(1) by simp
  have "submitContext s
          = filter (\<lambda>qa. snd qa \<noteq> [])
              (map (\<lambda>p. (question (snd p), ?A (fst p)))
                 (enumerate 0 (take (?idx + 1) (questions s))))"
    by (simp add: submitContext_def case_prod_unfold)
  then have "length (submitContext s)
          = length (filter (\<lambda>p. ?A (fst p) \<noteq> [])
              (enumerate 0 (take (?idx + 1) (questions s))))"
    by (simp add: filter_map comp_def)
  also have "\<dots> = length (filter (\<lambda>i. ?A i \<noteq> []) [0..<?idx + 1])"
    using length_filter_enumerate [of "\<lambda>i. ?A i \<noteq> []" 0 "take (?idx + 1) (questions s)"] len
    by simp
  also have "\<dots> = card (set (filter (\<lambda>i. ?A i \<noteq> []) [0..<?idx + 1]))"
    by (rule distinct_card [symmetric]) simp
  also have "set (filter (\<lambda>i. ?A i \<noteq> []) [0..<?idx + 1]) = insert ?idx (dom (answers s))"
  proof (intro set_eqI iffI)
    fix i assume "i \<in> set (filter (\<lambda>i. ?A i \<noteq> []) [0..<?idx + 1])"
    then show "i \<in> insert ?idx (dom (answers s))"
      by (auto split: if_splits option.splits)
  next
    fix i assume i: "i \<in> insert ?idx (dom (answers s))"
    show "i \<in> set (filter (\<lambda>i. ?A i \<noteq> []) [0..<?idx + 1])"
    proof (cases "i = ?idx")
      case True
      then show ?thesis using assms(4) by simp
    next
      case False
      with i obtain a where a: "answers s i = Some a" by auto
      then have "a \<noteq> []" using assms(3) by (auto simp: ran_def)
      moreover have "i < ?idx" using a assms(2) by auto
      ultimately show ?thesis using a False by simp
    qed
  qed
  also have "card (insert ?idx (dom (answers s))) = card (dom (answers s)) + 1"
  proof -
    have "finite (dom (answers s))" using assms(2) finite_subset by blast
    moreover have "?idx \<notin> dom (answers s)" using assms(2) by auto
    ultimately show ?thesis by simp
  qed
  finally show ?thesis .
qed

lemma trim_nonempty: "trim s \<noteq> [] \<Longrightarrow> s \<noteq> []"
  by (auto simp: trim_def)

text \<open>The outcomes of the oracle client, and what each handler does to the session.\<close>

lemma generateNextQuestion_cases:
  obtains l where "generateNextQuestion P k lc now d qa resp = (None, l)"
  | l where "generateNextQuestion P k lc now d qa resp = (Some Stop, l)"
  | l q where "generateNextQuestion P k lc now d qa resp = (Some (Continue q), l)"
proof (cases "generateNextQuestion P k lc now d qa resp")
  case (Pair r l)
  show ?thesis
  proof (cases r)
    case None
    then show ?thesis using Pair that(1) by simp
  next
    case (Some dec)
    then show ?thesis using Pair that(2,3) by (cases dec) simp_all
  qed
qed

lemma handleStartProject_page:
  "page (handleStartProject P S N today now resp s) = Questioning
     \<and> currentQuestionIndex (handleStartProject P S N today now resp s) = 0
     \<and> length (questions (handleStartProject P S N today now resp s)) = 1
     \<and> answers (handleStartProject P S N today now resp s) = answers s
   \<or> page (handleStartProject P S N today now resp s) = page s
     \<and> questions (handleStartProject P S N today now resp s) = questions s
     \<and> answers (handleStartProject P S N today now resp s) = answers s"
proof (cases "valid (validateInput (projectInput s))")
  case False
  then show ?thesis by (simp add: handleStartProject_def Let_def)
next
  case True
  show ?thesis
  proof (cases "checkRateLimit S N today (projectCount s)")
    case (Pair r st)
    show ?thesis
    proof (cases r)
      case (Inl e)
      then show ?thesis using True Pair by (simp add: handleStartProject_def Let_def)
    next
      case (Inr b)
      show ?thesis
      proof (cases b)
        case False
        then show ?thesis using True Pair Inr by (simp add: handleStartProject_def Let_def)
      next
        case b: True
        show ?thesis
          by (rule generateNextQuestion_cases
                [of P "apiKey s" "lastApiCall s" now "projectInput s" "[]" resp])
             (simp_all add: handleStartProject_def Let_def True Pair Inr b
                getFallbackQuestion_defined)
      qed
    qed
  qed
qed

lemma handleAnswerSubmit_cases:
  assumes "trim (currentAnswer s) \<noteq> []"
  shows "answers (handleAnswerSubmit P now resp s)
           = (answers s)(currentQuestionIndex s \<mapsto> currentAnswer s)
         \<and> (page (handleAnswerSubmit P now resp s) = page s
              \<and> length (submitContext s) < 20
              \<and> length (questions (handleAnswerSubmit P now resp s)) = length (questions s) + 1
              \<and> currentQuestionIndex (handleAnswerSubmit P now resp s)
                  = currentQuestionIndex s + 1
            \<or> page (handleAnswerSubmit P now resp s) = Summary
              \<and> questions (handleAnswerSubmit P now resp s) = questions s)"
proof (cases "length (submitContext s) < 20")
  case False
  then show ?thesis using assms by (simp add: handleAnswerSubmit_def Let_def)
next
  case True
  show ?thesis
    by (rule generateNextQuestion_cases
          [of P "apiKey s" "lastApiCall s" now "projectInput s" "submitContext s" resp])
       (simp_all add: handleAnswerSubmit_def Let_def True assms getFallbackQuestion_defined)
qed

lemma skipQuestion_cases:
  "answers (skipQuestion P now resp s) = answers s
   \<and> (page (skipQuestion P now resp s) = page s
        \<and> length (questions (skipQuestion P now resp s)) = length (questions s) + 1
        \<and> currentQuestionIndex (skipQuestion P now resp s) = currentQuestionIndex s + 1
      \<or> page (skipQuestion P now resp s) = Summary
        \<and> questions (skipQuestion P now resp s) = questions s)"
proof (cases "length (skipContext s) < 20")
  case False
  then show ?thesis by (simp add: skipQuestion_def Let_def)
next
  case True
  show ?thesis
    by (rule generateNextQuestion_cases
          [of P "apiKey s" "lastApiCall s" now "projectInput s" "skipContext s" resp])
       (simp_all add: skipQuestion_def Let_def True)
qed

text \<open>
  The invariant holds initially and every action keeps it. So at most 20 questions are
  ever answered in a session, whatever the user and the service do.
\<close>

lemma session_inv_initial: "session_inv (initial stored lastCall key)"
  by (simp add: session_inv_def initial_def)

lemma session_inv_step:
  assumes "session_inv s"
  shows "session_inv (step P S N s a)"
proof (cases a)
  case (InputChange v)
  then show ?thesis using assms
    by (auto simp: session_inv_def handleInputChange_def split: page.splits)
next
  case (StartProject today now resp)
  show ?thesis
  proof (cases "page s = Home \<and> trim (projectInput s) \<noteq> [] \<and> \<not> isGenerating s
                 \<and> inputError s = []")
    case False
    then show ?thesis using assms StartProject by auto
  next
    case True
    then have e: "answers s = Map.empty" using assms by (simp add: session_inv_def)
    show ?thesis
      using handleStartProject_page [of P S N today now resp s] True e StartProject
      by (auto simp: session_inv_def)
  qed
next
  case (AnswerChange v)
  then show ?thesis using assms
    by (auto simp: session_inv_def split: page.splits)
next
  case (AnswerSubmit now resp)
  show ?thesis
  proof (cases "page s = Questioning \<and> trim (currentAnswer s) \<noteq> []")
    case False
    then show ?thesis using assms AnswerSubmit by auto
  next
    case True
    let ?s' = "handleAnswerSubmit P now resp s"
    let ?idx = "currentQuestionIndex s"
    from True assms have inv: "?idx < length (questions s)"
      "dom (answers s) \<subseteq> {..<?idx}" "[] \<notin> ran (answers s)" "card (dom (answers s)) < 20"
      by (simp_all add: session_inv_def)
    from True have ne: "currentAnswer s \<noteq> []" by (auto simp: trim_nonempty)
    have fin: "finite (dom (answers s))" using inv(2) finite_subset by blast
    have notin: "?idx \<notin> dom (answers s)" using inv(2) by auto
    have len: "length (submitContext s) = card (dom (answers s)) + 1"
      using length_submitContext [OF inv(1-3) ne] .
    have ans: "answers ?s' = (answers s)(?idx \<mapsto> currentAnswer s)"
      using handleAnswerSubmit_cases [of s P now resp] True by simp
    have card': "card (dom (answers ?s')) = card (dom (answers s)) + 1"
      using fin notin by (simp add: ans)
    have dom': "dom (answers ?s') \<subseteq> {..<?idx + 1}" using inv(2) by (auto simp: ans)
    have ran': "[] \<notin> ran (answers ?s')"
      using inv(3) ne by (auto simp: ans ran_def split: if_splits)
    consider
      (more) "page ?s' = page s" "length (submitContext s) < 20"
        "length (questions ?s') = length (questions s) + 1"
        "currentQuestionIndex ?s' = ?idx + 1"
      | (finished) "page ?s' = Summary"
      using handleAnswerSubmit_cases [of s P now resp] True by auto
    then have "session_inv ?s'"
    proof cases
      case more
      then show ?thesis using True inv(1) card' dom' ran' len
        by (simp add: session_inv_def)
    next
      case finished
      then show ?thesis using card' inv(4) by (simp add: session_inv_def)
    qed
    then show ?thesis using True AnswerSubmit by simp
  qed
next
  case (SkipQuestion now resp)
  show ?thesis
  proof (cases "page s = Questioning")
    case False
    then show ?thesis using assms SkipQuestion by auto
  next
    case True
    let ?s' = "skipQuestion P now resp s"
    from True assms have inv: "currentQuestionIndex s < length (questions s)"
      "dom (answers s) \<subseteq> {..<currentQuestionIndex s}" "[] \<notin> ran (answers s)"
      "card (dom (answers s)) < 20"
      by (simp_all add: session_inv_def)
    have wider: "dom (answers s) \<subseteq> {..<currentQuestionIndex s + 1}"
      using inv(2) by auto
    have "session_inv ?s'"
      using skipQuestion_cases [of P now resp s] True inv(1,3,4) wider
      by (auto simp: session_inv_def)
    then show ?thesis using True SkipQuestion by simp
  qed
next
  case FinishQuestioning
  then show ?thesis using assms
    by (auto simp: session_inv_def finishQuestioning_def split: page.splits)
next
  case StartNewProject
  then show ?thesis using assms
    by (auto simp: session_inv_def startNewProject_def split: page.splits)
qed



text \<open>
  While the user never skips, the question list has one question more than there are
  answers, so it has at most 20 questions.
\<close>

lemma answered_inv_initial: "answered_inv (initial stored lastCall key)"
  by (simp add: answered_inv_def initial_def)

lemma answered_inv_step:
  assumes "session_inv s" and "answered_inv s" and "\<not> is_skip a"
  shows "answered_inv (step P S N s a)"
proof (cases a)
  case (InputChange v)
  then show ?thesis using assms(2)
    by (auto simp: answered_inv_def handleInputChange_def split: page.splits)
next
  case (StartProject today now resp)
  show ?thesis
  proof (cases "page s = Home \<and> trim (projectInput s) \<noteq> [] \<and> \<not> isGenerating s
                 \<and> inputError s = []")
    case False
    then show ?thesis using assms(2) StartProject by auto
  next
    case True
    then have e: "answers s = Map.empty" "questions s = []"
      using assms(1,2) by (simp_all add: session_inv_def answered_inv_def)
    show ?thesis
      using handleStartProject_page [of P S N today now resp s] True e StartProject
      by (auto simp: answered_inv_def)
  qed
next
  case (AnswerChange v)
  then show ?thesis using assms(2)
    by (auto simp: answered_inv_def split: page.splits)
next
  case (AnswerSubmit now resp)
  show ?thesis
  proof (cases "page s = Questioning \<and> trim (currentAnswer s) \<noteq> []")
    case False
    then show ?thesis using assms(2) AnswerSubmit by auto
  next
    case True
    let ?s' = "handleAnswerSubmit P now resp s"
    let ?idx = "currentQuestionIndex s"
    from True assms(1) have c: "card (dom (answers s)) < 20" by (simp add: session_inv_def)
    from True assms(2) have inv: "length (questions s) = ?idx + 1" "dom (answers s) = {..<?idx}"
      by (simp_all add: answered_inv_def)
    have idx: "?idx < 20" using c inv(2) by simp
    have ans: "answers ?s' = (answers s)(?idx \<mapsto> currentAnswer s)"
      using handleAnswerSubmit_cases [of s P now resp] True by simp
    have dom': "dom (answers ?s') = {..<?idx + 1}" using inv(2) by (auto simp: ans)
    consider
      (more) "page ?s' = page s" "length (questions ?s') = length (questions s) + 1"
        "currentQuestionIndex ?s' = ?idx + 1"
      | (finished) "page ?s' = Summary" "questions ?s' = questions s"
      using handleAnswerSubmit_cases [of s P now resp] True by auto
    then have "answered_inv ?s'"
    proof cases
      case more
      then show ?thesis using True inv(1) dom' by (simp add: answered_inv_def)
    next
      case finished
      then show ?thesis using inv(1) idx by (simp add: answered_inv_def)
    qed
    then show ?thesis using True AnswerSubmit by simp
  qed
next
  case (SkipQuestion now resp)
  then show ?thesis using assms(3) by (simp add: is_skip_def)
next
  case FinishQuestioning
  show ?thesis
  proof (cases "page s = Questioning")
    case False
    then show ?thesis using assms(2) FinishQuestioning by auto
  next
    case True
    from True assms(1) have c: "card (dom (answers s)) < 20" by (simp add: session_inv_def)
    from True assms(2) have inv: "length (questions s) = currentQuestionIndex s + 1"
      "dom (answers s) = {..<currentQuestionIndex s}"
      by (simp_all add: answered_inv_def)
    have "length (questions s) \<le> 20" using c inv by simp
    then show ?thesis using True FinishQuestioning
      by (simp add: answered_inv_def finishQuestioning_def)
  qed
next
  case StartNewProject
  then show ?thesis using assms(2)
    by (auto simp: answered_inv_def startNewProject_def split: page.splits)
qed

lemma answered_inv_run:
  "session_inv s \<Longrightarrow> answered_inv s \<Longrightarrow> \<not> list_ex is_skip as
     \<Longrightarrow> session_inv (run P S N s as) \<and> answered_inv (run P S N s as)"
  unfolding run_def
  by (induction as arbitrary: s) (simp_all add: session_inv_step answered_inv_step)

lemma at_most_20_without_skip:
  assumes "\<not> list_ex is_skip as"
  shows "length (questions (run P S N (initial stored lastCall key) as)) \<le> 20"
proof -
  let ?s = "run P S N (initial stored lastCall key) as"
  have inv: "session_inv ?s" "answered_inv ?s"
    using answered_inv_run [OF session_inv_initial answered_inv_initial assms] by simp_all
  show ?thesis
  proof (cases "page ?s")
    case Home
    then show ?thesis using inv(2) by (simp add: answered_inv_def)
  next
    case Questioning
    then have "card (dom (answers ?s)) < 20" "length (questions ?s) = currentQuestionIndex ?s + 1"
      "dom (answers ?s) = {..<currentQuestionIndex ?s}"
      using inv by (simp_all add: session_inv_def answered_inv_def)
    then show ?thesis by simp
  next
    case Summary
    then show ?thesis using inv(2) by (simp add: answered_inv_def)
  qed
qed

text \<open>
  Skipping adds a question and no answer: after \<open>n\<close> skips of the sample session the
  list has \<open>n + 1\<close> questions, for every \<open>n\<close>.
\<close>

lemma continueReply_parsed:
  "generateNextQuestion sampleParse (Some (js ''key'')) lastCall now desc qa continueReply
     = (if lastCall \<noteq> None \<and> now - the lastCall < 1000 then (None, lastCall)
        else (Some (Continue \<lparr>qid = length qa + 1, category = js ''Budget'',
                 question = js ''What is the budget ceiling?'', icon = [0xD83D, 0xDCB0],
                 type = standard\<rparr>), Some now))"
  by (cases lastCall)
     (simp_all add: generateNextQuestion_def getApiKey_def continueReply_def jsonMatch_def
        sampleParse_def sampleData_def js_def)

lemma skipContext_unanswered: "answers s = Map.empty \<Longrightarrow> skipContext s = []"
  by (simp add: skipContext_def filter_empty_conv case_prod_unfold)

lemma started_state:
  "page (run sampleParse sampleToNumber sampleToString fresh (start continueReply)) = Questioning"
  "answers (run sampleParse sampleToNumber sampleToString fresh (start continueReply)) = Map.empty"
  "apiKey (run sampleParse sampleToNumber sampleToString fresh
        (start continueReply)) = Some (js ''key'')"
  "lastApiCall (run sampleParse sampleToNumber sampleToString fresh (start continueReply)) = Some 0"
  "length (questions (run sampleParse sampleToNumber sampleToString fresh
        (start continueReply))) = 1"
  using sampleDescription_valid sampleDescription_trim
  by (simp_all add: run_def start_def fresh_def initial_def handleInputChange_def
        handleStartProject_def Let_def checkRateLimit_def continueReply_parsed)

lemma skips_Suc: "skips (Suc n) = skips n @ [SkipQuestion (2000 * int (Suc n)) continueReply]"
  by (simp add: skips_def)

lemma run_append: "run P S N s (as @ bs) = run P S N (run P S N s as) bs"
  by (simp add: run_def)

lemma skipping_grows:
  "page (run sampleParse sampleToNumber sampleToString fresh
        (start continueReply @ skips n)) = Questioning
   \<and> answers (run sampleParse sampleToNumber sampleToString fresh
         (start continueReply @ skips n)) = Map.empty
   \<and> apiKey (run sampleParse sampleToNumber sampleToString fresh
         (start continueReply @ skips n)) = Some (js ''key'')
   \<and> lastApiCall (run sampleParse sampleToNumber sampleToString fresh
         (start continueReply @ skips n)) = Some (2000 * int n)
   \<and> length (questions (run sampleParse sampleToNumber sampleToString fresh
         (start continueReply @ skips n))) = n + 1"
proof (induction n)
  case 0
  then show ?case using started_state by (simp add: skips_def)
next
  case (Suc n)
  let ?s = "run sampleParse sampleToNumber sampleToString fresh (start continueReply @ skips n)"
  have "run sampleParse sampleToNumber sampleToString fresh (start continueReply @ skips (Suc n))
          = skipQuestion sampleParse (2000 * int (Suc n)) continueReply ?s"
    using Suc by (simp add: skips_Suc run_append [symmetric] run_def)
  then show ?case using Suc
    by (simp add: skipQuestion_def Let_def skipContext_unanswered continueReply_parsed)
qed

subsection \<open>Question numbers\<close>

text \<open>
  The entries of the fallback list are numbered by their positions, and the client
  numbers a question by the length of its context plus one. While nothing is skipped,
  the context of an answer has as many entries as the list has questions.
\<close>

lemma qid_fallbackQuestions:
  assumes "i < 10"
  shows "qid (fallbackQuestions desc ! i) = i + 1"
proof -
  have "map qid (fallbackQuestions desc) = map Suc [0..<10]"
    by (simp add: fallbackQuestions_def upt_rec)
  moreover have "map qid (fallbackQuestions desc) ! i = qid (fallbackQuestions desc ! i)"
    using assms by (simp add: length_fallbackQuestions)
  moreover have "map Suc [0..<10] ! i = Suc i" using assms by simp
  ultimately show ?thesis by simp
qed

lemma handleStartProject_first_id:
  assumes "page s = Home" and "page (handleStartProject P S N today now resp s) = Questioning"
  shows "map qid (questions (handleStartProject P S N today now resp s)) = [1]"
proof (cases "valid (validateInput (projectInput s))")
  case False
  then show ?thesis using assms by (simp add: handleStartProject_def Let_def)
next
  case True
  show ?thesis
  proof (cases "checkRateLimit S N today (projectCount s)")
    case (Pair r st)
    show ?thesis
    proof (cases r)
      case (Inl e)
      then show ?thesis using True Pair assms by (simp add: handleStartProject_def Let_def)
    next
      case (Inr b)
      show ?thesis
      proof (cases b)
        case False
        then show ?thesis using True Pair Inr assms by (simp add: handleStartProject_def Let_def)
      next
        case b: True
        have g: "fst (generateNextQuestion P (apiKey s) (lastApiCall s) now (projectInput s) []
                   resp) = Some (Continue q) \<Longrightarrow> qid q = 1" for q
          by (auto simp: generateNextQuestion_def
                split: prod.splits sum.splits response.splits option.splits if_splits)
        show ?thesis
        proof (rule generateNextQuestion_cases
                [of P "apiKey s" "lastApiCall s" now "projectInput s" "[]" resp])
          fix l assume "generateNextQuestion P (apiKey s) (lastApiCall s) now (projectInput s) []
                          resp = (None, l)"
          then show ?thesis using True Pair Inr b
            by (simp add: handleStartProject_def Let_def getFallbackQuestion_defined
                  qid_fallbackQuestions)
        next
          fix l assume "generateNextQuestion P (apiKey s) (lastApiCall s) now (projectInput s) []
                          resp = (Some Stop, l)"
          then show ?thesis using True Pair Inr b assms
            by (simp add: handleStartProject_def Let_def)
        next
          fix l q assume c: "generateNextQuestion P (apiKey s) (lastApiCall s) now
                          (projectInput s) [] resp = (Some (Continue q), l)"
          then have "qid q = 1" using g [of q] by simp
          then show ?thesis using c True Pair Inr b
            by (simp add: handleStartProject_def Let_def)
        qed
      qed
    qed
  qed
qed

lemma generated_id:
  "fst (generateNextQuestion P k lc now d qa resp) = Some (Continue q) \<Longrightarrow> qid q = length qa + 1"
  by (auto simp: generateNextQuestion_def
        split: prod.splits sum.splits response.splits option.splits if_splits)

lemma context_without_skip:
  assumes "session_inv s" and "answered_inv s" and "page s = Questioning"
      and "trim (currentAnswer s) \<noteq> []"
  shows "length (submitContext s) = length (questions s)"
proof -
  have inv: "currentQuestionIndex s < length (questions s)"
    "dom (answers s) \<subseteq> {..<currentQuestionIndex s}" "[] \<notin> ran (answers s)"
    using assms(1,3) by (simp_all add: session_inv_def)
  have inv2: "length (questions s) = currentQuestionIndex s + 1"
    "dom (answers s) = {..<currentQuestionIndex s}"
    using assms(2,3) by (simp_all add: answered_inv_def)
  have "currentAnswer s \<noteq> []" using assms(4) by (auto simp: trim_nonempty)
  then have "length (submitContext s) = card (dom (answers s)) + 1"
    using length_submitContext [OF inv] by simp
  then show ?thesis using inv2 by simp
qed

text \<open>
  Claim C4, as amended. In a session in which no question has been skipped, every
  question is numbered as follows at the moment it is appended. The first question of the
  session, from the oracle client or from the fallback list, has number 1. A question
  that the oracle client produces on an answer has its 1-based position in the list as
  its number. A fallback question appended on an answer has the smaller of its position
  and 10 as its number, the fallback list being clamped to its last entry.
\<close>

theorem question_ids_without_skip:
  assumes "\<not> list_ex is_skip as"
      and "s = run JSON_parse StringToNumber NumberToString (initial stored lastCall key) as"
  shows
    "(page s = Home \<and> page (handleStartProject JSON_parse StringToNumber NumberToString
          today now resp s) = Questioning
        \<longrightarrow> map qid (questions (handleStartProject JSON_parse StringToNumber NumberToString
              today now resp s)) = [1])
     \<and> (page s = Questioning \<and> trim (currentAnswer s) \<noteq> [] \<and> length (questions s) < 20
         \<and> fst (generateNextQuestion JSON_parse (apiKey s) (lastApiCall s) now (projectInput s)
                  (submitContext s) resp) = Some (Continue q)
        \<longrightarrow> questions (handleAnswerSubmit JSON_parse now resp s) = questions s @ [q]
            \<and> qid q = length (questions s) + 1)
     \<and> (page s = Questioning \<and> trim (currentAnswer s) \<noteq> [] \<and> length (questions s) < 20
         \<and> fst (generateNextQuestion JSON_parse (apiKey s) (lastApiCall s) now (projectInput s)
                  (submitContext s) resp) = None
        \<longrightarrow> questions (handleAnswerSubmit JSON_parse now resp s)
              = questions s @ [fallbackQuestions (projectInput s) ! min (length (questions s)) 9]
            \<and> qid (fallbackQuestions (projectInput s) ! min (length (questions s)) 9)
                = min (length (questions s) + 1) 10)"
proof -
  have inv: "session_inv s" "answered_inv s"
    using answered_inv_run [OF session_inv_initial answered_inv_initial assms(1)] assms(2)
    by simp_all
  have A: "map qid (questions (handleStartProject JSON_parse StringToNumber NumberToString
        today now resp s)) = [1]"
    if "page s = Home" "page (handleStartProject JSON_parse StringToNumber NumberToString
          today now resp s) = Questioning"
    using that by (rule handleStartProject_first_id)
  have ctx: "length (submitContext s) = length (questions s)"
    if "page s = Questioning" "trim (currentAnswer s) \<noteq> []"
    using context_without_skip [OF inv that] .
  have B: "questions (handleAnswerSubmit JSON_parse now resp s) = questions s @ [q]
            \<and> qid q = length (questions s) + 1"
    if p: "page s = Questioning" "trim (currentAnswer s) \<noteq> []" "length (questions s) < 20"
      "fst (generateNextQuestion JSON_parse (apiKey s) (lastApiCall s) now (projectInput s)
              (submitContext s) resp) = Some (Continue q)"
  proof -
    obtain l where g: "generateNextQuestion JSON_parse (apiKey s) (lastApiCall s) now
        (projectInput s) (submitContext s) resp = (Some (Continue q), l)"
      using p(4)
      by (cases "generateNextQuestion JSON_parse (apiKey s) (lastApiCall s) now
        (projectInput s) (submitContext s) resp") auto
    have "qid q = length (submitContext s) + 1" using p(4) by (rule generated_id)
    then show ?thesis using g p(2,3) ctx [OF p(1,2)]
      by (simp add: handleAnswerSubmit_def Let_def)
  qed
  have C: "questions (handleAnswerSubmit JSON_parse now resp s)
              = questions s @ [fallbackQuestions (projectInput s) ! min (length (questions s)) 9]
            \<and> qid (fallbackQuestions (projectInput s) ! min (length (questions s)) 9)
                = min (length (questions s) + 1) 10"
    if p: "page s = Questioning" "trim (currentAnswer s) \<noteq> []" "length (questions s) < 20"
      "fst (generateNextQuestion JSON_parse (apiKey s) (lastApiCall s) now (projectInput s)
              (submitContext s) resp) = None"
  proof -
    obtain l where g: "generateNextQuestion JSON_parse (apiKey s) (lastApiCall s) now
        (projectInput s) (submitContext s) resp = (None, l)"
      using p(4)
      by (cases "generateNextQuestion JSON_parse (apiKey s) (lastApiCall s) now
        (projectInput s) (submitContext s) resp") auto
    have "min (length (questions s)) 9 < 10" by simp
    then have "qid (fallbackQuestions (projectInput s) ! min (length (questions s)) 9)
                 = min (length (questions s)) 9 + 1"
      by (rule qid_fallbackQuestions)
    then show ?thesis using g p(2,3) ctx [OF p(1,2)]
      by (simp add: handleAnswerSubmit_def Let_def getFallbackQuestion_defined)
  qed
  show ?thesis using A B C by blast
qed

text \<open>
  The state in which the first question of the sample session is being answered, and the
  state in which the description has been typed.
\<close>

lemma answering_state:
  "page (run sampleParse sampleToNumber sampleToString fresh
        (start continueReply @ [AnswerChange (js ''two months'')]))
     = Questioning"
  "trim (currentAnswer
     (run sampleParse sampleToNumber sampleToString fresh
           (start continueReply @ [AnswerChange (js ''two months'')]))) \<noteq> []"
  "map qid (questions
     (run sampleParse sampleToNumber sampleToString fresh
           (start continueReply @ [AnswerChange (js ''two months'')]))) = [1]"
  by code_simp+

lemma answering_replies:
  "fst (generateNextQuestion sampleParse
     (apiKey (run sampleParse sampleToNumber sampleToString fresh
           (start continueReply @ [AnswerChange (js ''two months'')])))
     (lastApiCall (run sampleParse sampleToNumber sampleToString fresh
           (start continueReply @ [AnswerChange (js ''two months'')])))
     2000
     (projectInput (run sampleParse sampleToNumber sampleToString fresh
           (start continueReply @ [AnswerChange (js ''two months'')])))
     (submitContext (run sampleParse sampleToNumber sampleToString fresh
           (start continueReply @ [AnswerChange (js ''two months'')])))
     continueReply)
   = Some (Continue \<lparr>qid = 2, category = js ''Budget'',
        question = js ''What is the budget ceiling?'', icon = [0xD83D, 0xDCB0], type = standard\<rparr>)"
  "fst (generateNextQuestion sampleParse
     (apiKey (run sampleParse sampleToNumber sampleToString fresh
           (start continueReply @ [AnswerChange (js ''two months'')])))
     (lastApiCall (run sampleParse sampleToNumber sampleToString fresh
           (start continueReply @ [AnswerChange (js ''two months'')])))
     2000
     (projectInput (run sampleParse sampleToNumber sampleToString fresh
           (start continueReply @ [AnswerChange (js ''two months'')])))
     (submitContext (run sampleParse sampleToNumber sampleToString fresh
           (start continueReply @ [AnswerChange (js ''two months'')])))
     proseReply)
   = None"
  by code_simp+

lemma typed_state:
  "page (run sampleParse sampleToNumber sampleToString fresh
        [InputChange sampleDescription]) = Home"
  "page (handleStartProject sampleParse sampleToNumber sampleToString sampleDay 0 continueReply
     (run sampleParse sampleToNumber sampleToString fresh
           [InputChange sampleDescription])) = Questioning"
  by code_simp+

theorem question_ids_without_skip_witness:
  "map qid (questions (handleStartProject sampleParse sampleToNumber sampleToString
        sampleDay 0 continueReply
      (run sampleParse sampleToNumber sampleToString fresh [InputChange sampleDescription]))) = [1]
   \<and> map qid (questions (handleAnswerSubmit sampleParse 2000 continueReply
      (run sampleParse sampleToNumber sampleToString fresh
            (start continueReply @ [AnswerChange (js ''two months'')]))))
     = [1, 2]
   \<and> map qid (questions (handleAnswerSubmit sampleParse 2000 proseReply
      (run sampleParse sampleToNumber sampleToString fresh
            (start continueReply @ [AnswerChange (js ''two months'')]))))
     = [1, 2]"
proof -
  let ?as = "start continueReply @ [AnswerChange (js ''two months'')]"
  let ?s = "run sampleParse sampleToNumber sampleToString fresh ?as"
  let ?q = "\<lparr>qid = 2, category = js ''Budget'', question = js ''What is the budget ceiling?'',
             icon = [0xD83D, 0xDCB0], type = standard\<rparr>"
  have n1: "\<not> list_ex is_skip [InputChange sampleDescription]" by (simp add: is_skip_def)
  have n2: "\<not> list_ex is_skip ?as" by (simp add: is_skip_def start_def)
  have len: "length (questions ?s) = 1"
    using answering_state(3) by (metis length_map list.size(3,4) One_nat_def add_0)
  have first: "map qid (questions (handleStartProject sampleParse sampleToNumber sampleToString
        sampleDay 0 continueReply
      (run sampleParse sampleToNumber sampleToString fresh [InputChange sampleDescription]))) = [1]"
    using question_ids_without_skip [OF n1, of "run sampleParse sampleToNumber sampleToString fresh
          [InputChange sampleDescription]"
        sampleParse sampleToNumber sampleToString
              None None "Some (js ''key'')" sampleDay 0 continueReply]
      typed_state
    by (simp add: fresh_def)
  have second: "questions (handleAnswerSubmit sampleParse 2000 continueReply ?s)
      = questions ?s @ [?q]"
    using question_ids_without_skip [OF n2, of ?s sampleParse sampleToNumber sampleToString
          None None "Some (js ''key'')"
        _ 2000 continueReply ?q]
      answering_state(1,2) answering_replies(1) len
    by (simp add: fresh_def)
  have third: "questions (handleAnswerSubmit sampleParse 2000 proseReply ?s)
      = questions ?s @ [fallbackQuestions (projectInput ?s) ! min (length (questions ?s)) 9]
      \<and> qid (fallbackQuestions (projectInput ?s) ! min (length (questions ?s)) 9)
          = min (length (questions ?s) + 1) 10"
    using question_ids_without_skip [OF n2, of ?s sampleParse sampleToNumber sampleToString
          None None "Some (js ''key'')"
        _ 2000 proseReply]
      answering_state(1,2) answering_replies(2) len
    by (simp add: fresh_def)
  show ?thesis using first second third answering_state(3) len by simp
qed

text \<open>
  The claim as stated gives every appended question its position as number. With the
  service unusable throughout and nothing skipped, the eleventh question is the last
  entry of the fallback list again: number 10 at position 11.
\<close>

theorem fallback_id_repeats_counterexample:
  "map qid (questions (run sampleParse sampleToNumber sampleToString fresh
        (start proseReply @ answersWithoutOracle 10)))
     = [1, 2, 3, 4, 5, 6, 7, 8, 9, 10, 10]
   \<and> page (run sampleParse sampleToNumber sampleToString fresh
         (start proseReply @ answersWithoutOracle 10)) = Questioning"
  by code_simp

section \<open>The daily cap\<close>

lemma rateLimitMessage_limit: "js_includes rateLimitMessage (js ''limit of 5 projects per day'')"
  by code_simp

lemma projectsPerDayBadge_limit: "js_includes projectsPerDayBadge (js ''2 Projects/Day'')"
  by code_simp

text \<open>
  Claim C10. The cap of the rate limiter is 100: starting from no stored item or from an
  item that is not of today (any parsed value but \<^verbatim>\<open>null\<close> whose date is not the string of
  today), the call after \<open>n\<close> earlier calls of the same day succeeds exactly when
  \<open>n < 100\<close>, so the first 100 calls succeed and every later one is denied.
  On a denial \<^verbatim>\<open>handleStartProject\<close> only sets the error, to a message that speaks of a
  limit of 5 projects per day, and the badge of the home page reads 2 projects per day.
\<close>

theorem daily_cap_100:
  "(stored = None
      \<or> (\<exists>v. stored = Some (Parsed v) \<and> v \<noteq> JNull \<and> Get v (js ''date'') \<noteq> Some (JString today))
     \<longrightarrow> fst (checkRateLimit StringToNumber NumberToString today
               (after_calls StringToNumber NumberToString today n stored)) = Inr (n < 100))
   \<and> (valid (validateInput (projectInput s))
       \<and> fst (checkRateLimit StringToNumber NumberToString today (projectCount s)) = Inr False
      \<longrightarrow> handleStartProject JSON_parse StringToNumber NumberToString today now resp s
            = s\<lparr>inputError := rateLimitMessage\<rparr>)
   \<and> js_includes rateLimitMessage (js ''limit of 5 projects per day'')
   \<and> js_includes projectsPerDayBadge (js ''2 Projects/Day'')"
proof -
  let ?S = StringToNumber and ?N = NumberToString
  have A: "fst (checkRateLimit ?S ?N today (after_calls ?S ?N today n stored)) = Inr (n < 100)"
    if start: "stored = None
      \<or> (\<exists>v. stored = Some (Parsed v) \<and> v \<noteq> JNull \<and> Get v (js ''date'') \<noteq> Some (JString today))"
  proof (cases n)
    case 0
    then show ?thesis using first_call_of_day [OF start] by simp
  next
    case (Suc m)
    have "after_calls ?S ?N today n stored
            = Some (Parsed (usage today (JNumber (Finite (of_int (min (1 + int m) 100))))))"
      using first_call_of_day [OF start, of ?S ?N] after_calls_same_day [of 1 ?S ?N today m] Suc
      by simp
    moreover have "greaterEqual (Finite (of_int (min (1 + int m) 100))) 100 \<longleftrightarrow> 99 \<le> m"
    proof -
      have "greaterEqual (Finite (of_int (min (1 + int m) 100))) 100
              \<longleftrightarrow> (100::int) \<le> min (1 + int m) 100"
        unfolding greaterEqual_def number.case by (metis of_int_le_iff of_int_numeral)
      then show ?thesis by auto
    qed
    ultimately show ?thesis using Suc
      by (auto simp: checkRateLimit_same_day Get_usage ToPrimitive_count atLeast100_count)
  qed
  have B: "handleStartProject JSON_parse ?S ?N today now resp s = s\<lparr>inputError := rateLimitMessage\<rparr>"
    if "valid (validateInput (projectInput s))"
      and "fst (checkRateLimit ?S ?N today (projectCount s)) = Inr False"
  proof -
    have "checkRateLimit ?S ?N today (projectCount s) = (Inr False, projectCount s)"
      using that(2) by (rule denied_unchanged)
    then show ?thesis using that(1) by (simp add: handleStartProject_def Let_def)
  qed
  show ?thesis using A B rateLimitMessage_limit projectsPerDayBadge_limit by blast
qed

theorem daily_cap_100_witness:
  "fst (checkRateLimit sampleToNumber sampleToString sampleDay
          (after_calls sampleToNumber sampleToString sampleDay 99 None)) = Inr True
   \<and> fst (checkRateLimit sampleToNumber sampleToString sampleDay
          (after_calls sampleToNumber sampleToString sampleDay 100 None)) = Inr False
   \<and> inputError (handleStartProject sampleParse sampleToNumber sampleToString sampleDay 0
        continueReply
        ((handleInputChange sampleDescription fresh)
           \<lparr>projectCount := Some (Parsed (usage sampleDay (JNumber (Finite 100))))\<rparr>))
       = rateLimitMessage"
proof -
  let ?s = "(handleInputChange sampleDescription fresh)
              \<lparr>projectCount := Some (Parsed (usage sampleDay (JNumber (Finite 100))))\<rparr>"
  have 1: "valid (validateInput (projectInput ?s))"
    using sampleDescription_valid by (simp add: handleInputChange_def fresh_def initial_def)
  have 2: "fst (checkRateLimit sampleToNumber sampleToString sampleDay (projectCount ?s))
             = Inr False"
    by (simp add: checkRateLimit_same_day Get_usage ToPrimitive_count atLeast100_count
          greaterEqual_def)
  show ?thesis
    using daily_cap_100 [where stored = None and today = sampleDay and n = 99 and s = ?s
            and StringToNumber = sampleToNumber and NumberToString = sampleToString
            and JSON_parse = sampleParse and now = 0 and resp = continueReply]
      daily_cap_100 [where stored = None and today = sampleDay and n = 100 and s = ?s
            and StringToNumber = sampleToNumber and NumberToString = sampleToString
            and JSON_parse = sampleParse and now = 0 and resp = continueReply] 1 2
    by simp
qed

section \<open>Analytics\<close>

subsection \<open>Completeness\<close>

text \<open>
  The value \<^verbatim>\<open>Math.round((answeredCount / totalQuestions) * 100)\<close> is within one half
  of the exact percentage: the two roundings move the product by less than
  \<open>1 / (2 * totalQuestions)\<close>, which is the least distance between a percentage and a
  half-integer that it does not hit.
\<close>

lemma completeness_nearest:
  fixes a t :: nat
  assumes t: "0 < t" and a: "a < 2 ^ 32"
  defines "c \<equiv> Math_round (fl64 (fl64 (of_nat a / of_nat t) * 100))"
  shows "\<bar>of_int c - 100 * of_nat a / of_nat t\<bar> \<le> (1 / 2 :: rat)"
proof -
  define q :: rat where "q = of_nat a / of_nat t"
  define x1 where "x1 = fl64 q"
  define x2 where "x2 = fl64 (x1 * 100)"
  have q0: "0 \<le> q" by (simp add: q_def)
  have x10: "0 \<le> x1" using q0 by (simp add: x1_def fl64_nonneg)
  have e1: "\<bar>x1 - q\<bar> \<le> q / 2 ^ 53" using fl64_err [of q] q0 by (simp add: x1_def)
  have e2: "\<bar>x2 - x1 * 100\<bar> \<le> x1 * 100 / 2 ^ 53"
    using fl64_err [of "x1 * 100"] x10 by (simp add: x2_def)
  define d1 where "d1 = \<bar>x1 - q\<bar>"
  define d2 where "d2 = \<bar>x2 - x1 * 100\<bar>"
  define eps :: rat where "eps = 1 / 2 ^ 53"
  have eps: "0 \<le> eps" "eps \<le> 1" by (simp_all add: eps_def)
  have d1: "d1 \<le> q * eps" using e1 by (simp add: d1_def eps_def)
  have d2: "d2 \<le> x1 * 100 * eps" using e2 by (simp add: d2_def eps_def)
  have "x1 - q \<le> d1" by (simp add: d1_def)
  then have "x1 \<le> q + q * eps" using d1 by linarith
  also have "q * eps \<le> q * 1" using eps q0 by (intro mult_left_mono) simp_all
  finally have x1q: "x1 \<le> 2 * q" by simp
  have "x2 - 100 * q = (x2 - x1 * 100) + 100 * (x1 - q)" by simp
  then have "\<bar>x2 - 100 * q\<bar> \<le> \<bar>x2 - x1 * 100\<bar> + \<bar>100 * (x1 - q)\<bar>"
    by (simp only: abs_triangle_ineq)
  also have "\<bar>100 * (x1 - q)\<bar> = 100 * \<bar>x1 - q\<bar>" by (simp only: abs_mult abs_numeral)
  finally have "\<bar>x2 - 100 * q\<bar> \<le> d2 + 100 * d1" by (simp add: d1_def d2_def)
  also have "\<dots> \<le> x1 * 100 * eps + 100 * (q * eps)" using d1 d2 by linarith
  also have "x1 * 100 * eps \<le> (2 * q) * 100 * eps"
    using x1q eps by (intro mult_right_mono) simp_all
  finally have "\<bar>x2 - 100 * q\<bar> \<le> (2 * q) * 100 * eps + 100 * (q * eps)" by simp
  then have err: "\<bar>x2 - 100 * q\<bar> \<le> 300 * q / 2 ^ 53" by (simp add: eps_def)
  have tq: "of_nat t * q = of_nat a" using t by (simp add: q_def)
  have "2 * of_nat t * (300 * q / 2 ^ 53) = 600 * (of_nat t * q) / 2 ^ 53" by simp
  also have "\<dots> = 600 * of_nat a / 2 ^ 53" by (simp only: tq)
  also have "\<dots> < (1::rat)"
  proof -
    have "(of_nat a :: rat) < of_nat (2 ^ 32)" using a by (simp only: of_nat_less_iff)
    then have "(of_nat a :: rat) < 2 ^ 32" by simp
    then show ?thesis by simp
  qed
  finally have small: "2 * of_nat t * (300 * q / 2 ^ 53) < (1::rat)" .
  have c: "of_int c \<le> x2 + 1 / 2" "x2 + 1 / 2 < of_int c + 1"
    unfolding c_def Math_round_def x2_def x1_def q_def by linarith+
  have tpos: "(0::rat) < 2 * of_nat t" using t by simp
  have up: "100 * q - of_int c - 1 / 2 < 300 * q / 2 ^ 53" using c err by linarith
  have lo: "of_int c - 1 / 2 - 100 * q \<le> 300 * q / 2 ^ 53" using c err by linarith
  have "2 * of_nat t * (100 * q - of_int c - 1 / 2) < 2 * of_nat t * (300 * q / 2 ^ 53)"
    using up tpos by (simp only: mult_less_cancel_left_pos)
  then have "2 * of_nat t * (100 * q - of_int c - 1 / 2) < (1::rat)" using small by linarith
  moreover have "2 * of_nat t * (100 * q - of_int c - 1 / 2)
      = (of_int (200 * int a - (2 * c + 1) * int t) :: rat)"
    using tq by (simp add: algebra_simps)
  ultimately have "(of_int (200 * int a - (2 * c + 1) * int t) :: rat) < of_int 1" by simp
  then have "200 * int a - (2 * c + 1) * int t < 1" by (simp only: of_int_less_iff)
  then have U: "200 * int a \<le> (2 * c + 1) * int t" by simp
  have "2 * of_nat t * (of_int c - 1 / 2 - 100 * q) \<le> 2 * of_nat t * (300 * q / 2 ^ 53)"
    using lo tpos by (simp only: mult_le_cancel_left_pos)
  then have "2 * of_nat t * (of_int c - 1 / 2 - 100 * q) < (1::rat)" using small by linarith
  moreover have "2 * of_nat t * (of_int c - 1 / 2 - 100 * q)
      = (of_int ((2 * c - 1) * int t - 200 * int a) :: rat)"
    using tq by (simp add: algebra_simps)
  ultimately have "(of_int ((2 * c - 1) * int t - 200 * int a) :: rat) < of_int 1" by simp
  then have "(2 * c - 1) * int t - 200 * int a < 1" by (simp only: of_int_less_iff)
  then have L: "(2 * c - 1) * int t \<le> 200 * int a" by simp
  have "(of_int (200 * int a) :: rat) \<le> of_int ((2 * c + 1) * int t)"
    using U by (simp only: of_int_le_iff)
  then have U': "200 * (of_nat t * q) \<le> (2 * of_int c + 1) * of_nat t"
    by (simp add: tq)
  have "(of_int ((2 * c - 1) * int t) :: rat) \<le> of_int (200 * int a)"
    using L by (simp only: of_int_le_iff)
  then have L': "(2 * of_int c - 1) * of_nat t \<le> 200 * (of_nat t * q)"
    by (simp add: tq)
  have tp: "(0::rat) < of_nat t" using t by simp
  have "of_nat t * (200 * q) \<le> of_nat t * (2 * of_int c + 1)"
    using U' by (simp add: mult.commute mult.left_commute)
  then have U'': "200 * q \<le> 2 * of_int c + 1" using tp by (simp only: mult_le_cancel_left_pos)
  have "of_nat t * (2 * of_int c - 1) \<le> of_nat t * (200 * q)"
    using L' by (simp add: mult.commute mult.left_commute)
  then have L'': "2 * of_int c - 1 \<le> 200 * q" using tp by (simp only: mult_le_cancel_left_pos)
  have "\<bar>of_int c - 100 * q\<bar> \<le> 1 / 2" using U'' L'' by linarith
  then show ?thesis by (simp add: q_def)
qed

lemma card_sampleAnswers: "card (dom (sampleAnswers n)) = n"
proof -
  have "dom (sampleAnswers n) = {..<n}"
    by (auto simp: sampleAnswers_def dom_def)
  then show ?thesis by simp
qed

lemma nearest_unique:
  fixes y :: rat
  assumes "\<bar>of_int c - y\<bar> \<le> 1 / 2" and "of_int \<lfloor>y + 1 / 2\<rfloor> \<noteq> y + 1 / 2"
  shows "c = \<lfloor>y + 1 / 2\<rfloor>"
proof -
  have "y + 1 / 2 \<noteq> of_int (c + 1)"
  proof
    assume "y + 1 / 2 = of_int (c + 1)"
    then have "of_int \<lfloor>y + 1 / 2\<rfloor> = y + 1 / 2" by (simp only: floor_of_int)
    with assms(2) show False by simp
  qed
  moreover have "y + 1 / 2 \<le> of_int (c + 1)"
  proof -
    have "y - of_int c \<le> 1 / 2" using assms(1) by linarith
    then show ?thesis by simp
  qed
  ultimately have "y + 1 / 2 < of_int c + 1" by simp
  moreover have "of_int c \<le> y + 1 / 2" using assms(1) by linarith
  ultimately show ?thesis by (simp add: floor_unique)
qed

subsection \<open>Percentages halfway between two integers\<close>

text \<open>
  With at most 20 answers a percentage that is a half-integer has the form
  \<open>g * m / 2\<close> for a divisor \<open>g\<close> of 25 and an odd \<open>m\<close> up to 19, and for each of these
  thirty values the source rounds up, as rounding the exact percentage half up does.
\<close>

lemma rounds_up_ties: "list_all rounds_up_at tie_numerators"
  by code_simp

lemma divisors_of_25: "g dvd (25::nat) \<Longrightarrow> g = 1 \<or> g = 5 \<or> g = 25"
proof -
  assume d: "g dvd 25"
  have "list_all (\<lambda>g::nat. 25 mod g \<noteq> 0 \<or> g = 1 \<or> g = 5 \<or> g = 25) [0..<26]"
    by code_simp
  moreover have "g \<in> set [0..<26]"
  proof -
    have "g \<le> 25" using d by (rule dvd_imp_le) simp
    then show ?thesis by simp
  qed
  ultimately have "25 mod g \<noteq> 0 \<or> g = 1 \<or> g = 5 \<or> g = 25"
    unfolding list_all_iff by blast
  moreover have "25 mod g = 0" using d by (simp only: dvd_eq_mod_eq_0)
  ultimately show ?thesis by blast
qed

lemma odd_upto_20:
  "odd (m::nat) \<Longrightarrow> m \<le> 20 \<Longrightarrow> m \<in> set [1, 3, 5, 7, 9, 11, 13, 15, 17, 19]"
proof -
  assume o: "odd m" and "m \<le> 20"
  have "list_all (\<lambda>m::nat. m mod 2 = 0 \<or> m \<in> set [1, 3, 5, 7, 9, 11, 13, 15, 17, 19]) [0..<21]"
    by code_simp
  moreover have "m \<in> set [0..<21]" using \<open>m \<le> 20\<close> by simp
  ultimately have "m mod 2 = 0 \<or> m \<in> set [1, 3, 5, 7, 9, 11, 13, 15, 17, 19]"
    unfolding list_all_iff by blast
  moreover have "m mod 2 \<noteq> 0" using o by (simp add: odd_iff_mod_2_eq_one)
  ultimately show ?thesis by blast
qed

lemma product_in_concat:
  "g \<in> set gs \<Longrightarrow> m \<in> set ms \<Longrightarrow> g * m \<in> set (concat (map (\<lambda>g. map (\<lambda>m. g * m) ms) gs))"
  by auto

lemma tie_numerator:
  fixes a t d :: nat
  assumes "odd d" and "d * t = 200 * a" and "0 < t" and "a \<le> 20"
  shows "d \<in> set tie_numerators"
proof -
  have a0: "0 < a"
  proof (rule ccontr)
    assume "\<not> 0 < a"
    then have "d * t = 0" using assms(2) by simp
    then have "d = 0" using assms(3) by simp
    with assms(1) show False by simp
  qed
  have "coprime d 2" using assms(1) by simp
  then have "coprime d (2 ^ 3)" by (simp only: coprime_power_right_iff simp_thms)
  then have c8: "coprime d 8" by simp
  have "8 * (25 * a) = d * t" using assms(2) by simp
  moreover have "d dvd d * t" by simp
  ultimately have "d dvd 8 * (25 * a)" by (simp only:)
  then have d25: "d dvd 25 * a" using c8 by (simp only: coprime_dvd_mult_right_iff)
  define g where "g = gcd d 25"
  define m where "m = d div g"
  define h where "h = 25 div g"
  have g: "g dvd d" "g dvd 25" by (simp_all add: g_def)
  have g0: "0 < g" using g(2) by (auto intro: Nat.gr0I)
  have dm: "d = g * m" using g(1) by (simp add: m_def)
  have hh: "g * h = 25" using g(2) by (simp add: h_def)
  have cop: "coprime m h" unfolding m_def h_def g_def by (rule div_gcd_coprime) simp
  have "g * (h * a) = (g * h) * a" by simp
  also have "\<dots> = 25 * a" by (simp only: hh)
  finally have e: "25 * a = g * (h * a)" by (rule sym)
  have "g * m dvd 25 * a" using d25 by (simp only: dm)
  then have "g * m dvd g * (h * a)" by (simp only: e)
  then have "m dvd h * a" using g0 by (simp only: nat_mult_dvd_cancel1)
  then have "m dvd a" using cop by (simp only: coprime_dvd_mult_right_iff)
  then have "m \<le> a" using a0 by (rule dvd_imp_le)
  then have m20: "m \<le> 20" using assms(4) by simp
  have "odd m" using assms(1) dm by simp
  then have mm: "m \<in> set [1, 3, 5, 7, 9, 11, 13, 15, 17, 19]" using m20 by (rule odd_upto_20)
  have gg: "g \<in> set [1, 5, 25]" using divisors_of_25 [OF g(2)] by auto
  show ?thesis unfolding tie_numerators_def dm using gg mm by (rule product_in_concat)
qed

lemma completeness_exact_upto_20:
  fixes a t :: nat
  assumes t: "0 < t" and a: "a \<le> 20"
  shows "Math_round (fl64 (fl64 (of_nat a / of_nat t) * 100))
           = \<lfloor>100 * of_nat a / of_nat t + 1 / 2 :: rat\<rfloor>"
proof -
  let ?y = "100 * of_nat a / of_nat t :: rat"
  let ?c = "Math_round (fl64 (fl64 (of_nat a / of_nat t) * 100))"
  have a32: "a < 2 ^ 32" using a by simp
  show ?thesis
  proof (cases "of_int \<lfloor>?y + 1 / 2\<rfloor> = ?y + 1 / 2")
    case False
    then show ?thesis using nearest_unique [OF completeness_nearest [OF t a32]] by simp
  next
    case True
    define m where "m = \<lfloor>?y + 1 / 2\<rfloor>"
    have ym: "?y + 1 / 2 = of_int m" unfolding m_def using True by (rule sym)
    have "0 \<le> ?y" by simp
    then have "(0::rat) < of_int m" using ym by linarith
    then have m1: "1 \<le> m" by simp
    define d where "d = nat (2 * m - 1)"
    have d: "int d = 2 * m - 1" using m1 by (simp add: d_def)
    have oddd: "odd d"
    proof -
      have "odd (int d)" by (simp add: d)
      then show ?thesis by simp
    qed
    have tp: "(of_nat t :: rat) \<noteq> 0" using t by simp
    have y1: "?y = of_int m - 1 / 2" using ym by linarith
    have y2: "?y * of_nat t = 100 * of_nat a" using tp by simp
    have "200 * (of_nat a :: rat) = 2 * (?y * of_nat t)" by (simp only: y2)
    also have "\<dots> = 2 * ((of_int m - 1 / 2) * of_nat t)" by (simp only: y1)
    also have "\<dots> = (2 * of_int m - 1) * of_nat t" by (simp add: algebra_simps)
    also have "\<dots> = of_int (int d) * of_nat t" by (simp add: d)
    finally have eq: "200 * (of_nat a :: rat) = of_nat d * of_nat t" by simp
    then have "(of_nat (200 * a) :: rat) = of_nat (d * t)" by simp
    then have dt: "d * t = 200 * a" by (simp only: of_nat_eq_iff)
    have "d \<in> set tie_numerators" using oddd dt t a by (rule tie_numerator)
    then have "rounds_up_at d" using rounds_up_ties by (simp add: list_all_iff)
    then have r: "Math_round (fl64 (fl64 (of_nat d / 200) * 100)) = (int d + 1) div 2"
      by (simp add: rounds_up_at_def)
    have q: "(of_nat a / of_nat t :: rat) = of_nat d / 200"
      using eq tp by (simp add: field_simps)
    have "(int d + 1) div 2 = m" by (simp add: d)
    then have "Math_round (fl64 (fl64 (of_nat d / 200) * 100)) = m" using r by simp
    then have "?c = m" by (simp only: q)
    then show ?thesis by (simp only: m_def)
  qed
qed

text \<open>
  What \<^verbatim>\<open>calculateAnalytics\<close> computes from any question list and any answer map (of
  fewer than \<open>2\<^sup>3\<^sup>2\<close> answers): it counts the answers and the questions; completeness is
  0 when there is no question, and otherwise an integer nearest to
  \<open>100 * answeredCount / totalQuestions\<close>, which is that number rounded half up
  whenever it is not exactly halfway between two integers and whenever at most 20
  questions are answered; the risk follows from completeness.
\<close>

lemma calculateAnalytics_binary64:
  assumes "card (dom ans) < 2 ^ 32"
  shows
    "answeredCount (calculateAnalytics toLowerCase qs ans) = card (dom ans)
     \<and> totalQuestions (calculateAnalytics toLowerCase qs ans) = length qs
     \<and> (length qs = 0 \<longrightarrow> completeness (calculateAnalytics toLowerCase qs ans) = 0)
     \<and> (0 < length qs \<longrightarrow>
          \<bar>of_int (completeness (calculateAnalytics toLowerCase qs ans))
             - 100 * of_nat (card (dom ans)) / of_nat (length qs)\<bar> \<le> (1 / 2 :: rat))
     \<and> (0 < length qs
          \<and> of_int \<lfloor>100 * of_nat (card (dom ans)) / of_nat (length qs) + 1 / 2 :: rat\<rfloor>
              \<noteq> (100 * of_nat (card (dom ans)) / of_nat (length qs) + 1 / 2 :: rat)
        \<longrightarrow> completeness (calculateAnalytics toLowerCase qs ans)
              = \<lfloor>100 * of_nat (card (dom ans)) / of_nat (length qs) + 1 / 2 :: rat\<rfloor>)
     \<and> (0 < length qs \<and> card (dom ans) \<le> 20
        \<longrightarrow> completeness (calculateAnalytics toLowerCase qs ans)
              = \<lfloor>100 * of_nat (card (dom ans)) / of_nat (length qs) + 1 / 2 :: rat\<rfloor>)
     \<and> scopeRiskScore (calculateAnalytics toLowerCase qs ans)
         = (if completeness (calculateAnalytics toLowerCase qs ans) < 60 then High
            else if completeness (calculateAnalytics toLowerCase qs ans) < 80 then Medium
            else Low)"
proof -
  let ?r = "calculateAnalytics toLowerCase qs ans"
  let ?y = "100 * of_nat (card (dom ans)) / of_nat (length qs) :: rat"
  have c: "completeness ?r =
      (if 0 < length qs
       then Math_round (fl64 (fl64 (of_nat (card (dom ans)) / of_nat (length qs)) * 100))
       else 0)"
    by (simp add: calculateAnalytics_def Let_def)
  have near: "\<bar>of_int (completeness ?r) - ?y\<bar> \<le> 1 / 2" if "0 < length qs"
    using completeness_nearest [OF that assms] that by (simp add: c)
  have uniq: "completeness ?r = \<lfloor>?y + 1 / 2\<rfloor>"
    if "0 < length qs" "of_int \<lfloor>?y + 1 / 2\<rfloor> \<noteq> ?y + 1 / 2"
    using nearest_unique [OF near [OF that(1)] that(2)] .
  have exact: "completeness ?r = \<lfloor>?y + 1 / 2\<rfloor>"
    if "0 < length qs" "card (dom ans) \<le> 20"
    using completeness_exact_upto_20 [OF that] that(1) by (simp add: c)
  have risk: "scopeRiskScore ?r
         = (if completeness ?r < 60 then High else if completeness ?r < 80 then Medium else Low)"
    by (simp add: calculateAnalytics_def Let_def)
  have counts: "answeredCount ?r = card (dom ans)" "totalQuestions ?r = length qs"
    by (simp_all add: calculateAnalytics_def Let_def)
  have zero: "completeness ?r = 0" if "length qs = 0"
    using that by (simp add: calculateAnalytics_def Let_def)
  show ?thesis using near uniq exact risk counts zero by blast
qed

text \<open>
  Beyond 20 answers the two roundings of binary64 can move a percentage that lies halfway
  between two integers: with 23 answers to 40 questions the percentage is 57.5, which
  rounds to 58, while in binary64 \<^verbatim>\<open>23 / 40\<close> is slightly below 0.575 and the product
  with 100 is 57.49999999999999, which \<^verbatim>\<open>Math.round\<close> takes to 57. No session stores
  23 answers.
\<close>

lemma double_23_of_40: "Math_round (fl64 (fl64 (23 / 40) * 100)) = 57"
  by code_simp

lemma completeness_beyond_20:
  "completeness (calculateAnalytics asciiLower (sampleQuestions 40) (sampleAnswers 23)) = 57
   \<and> Math_round (100 * 23 / 40) = 58"
proof -
  have "completeness (calculateAnalytics asciiLower (sampleQuestions 40) (sampleAnswers 23))
          = Math_round (fl64 (fl64 (23 / 40) * 100))"
    by (simp add: calculateAnalytics_def Let_def card_sampleAnswers sampleQuestions_def)
  moreover have "Math_round (100 * 23 / 40) = 58" by code_simp
  ultimately show ?thesis using double_23_of_40 by simp
qed

subsection \<open>The analytics of a session\<close>




end
